theory Spec2Isabelle
  imports Complex_Main "HOL-Library.Sublist" "HOL-Library.Log_Nat"
begin

section \<open>JavaScript numbers\<close>

text \<open>
  The paginator computes with the \<^verbatim>\<open>number\<close> type of JavaScript, the 64-bit binary
  floating-point numbers. A number is modelled as the rational it denotes, or one of the
  three special values \<^verbatim>\<open>NaN\<close>, \<^verbatim>\<open>Infinity\<close> and \<^verbatim>\<open>-Infinity\<close>. Every arithmetic
  operation computes the exact result and rounds it to the nearest number that 64 bits
  can hold, ties going to the even significand; a result too large for the format is an
  infinity. The sign of zero is not modelled: \<^verbatim>\<open>-0\<close> is \<^verbatim>\<open>0\<close>.
\<close>

datatype jsnum = NaN | PInf | NInf | Fin rat

text \<open>The exponent of the power of two at or below a positive rational.\<close>

definition floor_log2 :: "rat \<Rightarrow> int" where
  "floor_log2 x = (if 1 \<le> x then bitlen \<lfloor>x\<rfloor> - 1 else - bitlen (\<lceil>1 / x\<rceil> - 1))"

text \<open>The nearest integer, a tie going to the even one.\<close>

definition round_half_even :: "rat \<Rightarrow> int" where
  "round_half_even x =
     (let f = \<lfloor>x\<rfloor>; d = x - of_int f
      in if d < 1 / 2 then f else if 1 / 2 < d then f + 1 else if even f then f else f + 1)"

text \<open>
  Rounding to the format. The significand has 53 bits, so a number with
  \<^verbatim>\<open>2^e <= |x| < 2^(e+1)\<close> is rounded to a multiple of \<^verbatim>\<open>2^(e-52)\<close>, and of
  \<^verbatim>\<open>2^(-1074)\<close> when that is larger. The largest number of the format is
  \<^verbatim>\<open>(2^53 - 1) * 2^971\<close>: a rounded significand of \<^verbatim>\<open>2^53\<close> at the unit \<^verbatim>\<open>2^971\<close>,
  or anything at a larger unit, is \<^verbatim>\<open>2^1024\<close> or more and overflows.
\<close>

definition round_double :: "rat \<Rightarrow> jsnum" where
  "round_double x =
     (if x = 0 then Fin 0
      else
        let e = floor_log2 \<bar>x\<bar>;
            q = max (e - 52) (- 1074);
            n = round_half_even (x / 2 powi q)
        in if 971 < q \<or> (q = 971 \<and> 2 ^ 53 \<le> \<bar>n\<bar>) then (if 0 < x then PInf else NInf)
           else Fin (of_int n * 2 powi q))"


fun jneg :: "jsnum \<Rightarrow> jsnum" where
  "jneg NaN = NaN"
| "jneg PInf = NInf"
| "jneg NInf = PInf"
| "jneg (Fin a) = Fin (- a)"

text \<open>\<^verbatim>\<open>a + b\<close>: opposite infinities cancel to \<^verbatim>\<open>NaN\<close>.\<close>

fun jadd :: "jsnum \<Rightarrow> jsnum \<Rightarrow> jsnum" where
  "jadd (Fin a) (Fin b) = round_double (a + b)"
| "jadd NaN _ = NaN"
| "jadd _ NaN = NaN"
| "jadd PInf NInf = NaN"
| "jadd NInf PInf = NaN"
| "jadd PInf _ = PInf"
| "jadd _ PInf = PInf"
| "jadd NInf _ = NInf"
| "jadd _ NInf = NInf"

text \<open>\<^verbatim>\<open>a - b\<close>; negation is exact, so this is \<open>a + (- b)\<close>.\<close>

definition jsub :: "jsnum \<Rightarrow> jsnum \<Rightarrow> jsnum" where
  "jsub a b = jadd a (jneg b)"

fun jsign :: "jsnum \<Rightarrow> int" where
  "jsign NaN = 0"
| "jsign PInf = 1"
| "jsign NInf = - 1"
| "jsign (Fin a) = (if 0 < a then 1 else if a < 0 then - 1 else 0)"

text \<open>\<^verbatim>\<open>a * b\<close>: an infinity times zero is \<^verbatim>\<open>NaN\<close>, otherwise the signs multiply.\<close>

fun jmul :: "jsnum \<Rightarrow> jsnum \<Rightarrow> jsnum" where
  "jmul (Fin a) (Fin b) = round_double (a * b)"
| "jmul NaN _ = NaN"
| "jmul _ NaN = NaN"
| "jmul a b =
     (if jsign a * jsign b = 0 then NaN else if 0 < jsign a * jsign b then PInf else NInf)"

text \<open>
  \<^verbatim>\<open>a / b\<close>: division by zero gives an infinity of the sign of the dividend
  (\<^verbatim>\<open>NaN\<close> for \<^verbatim>\<open>0 / 0\<close>), a finite number over an infinity is zero.
\<close>

fun jdiv :: "jsnum \<Rightarrow> jsnum \<Rightarrow> jsnum" where
  "jdiv (Fin a) (Fin b) =
     (if b \<noteq> 0 then round_double (a / b)
      else if 0 < a then PInf else if a < 0 then NInf else NaN)"
| "jdiv NaN _ = NaN"
| "jdiv _ NaN = NaN"
| "jdiv (Fin a) _ = Fin 0"
| "jdiv a (Fin b) = (if 0 \<le> b then a else jneg a)"
| "jdiv _ _ = NaN"

text \<open>
  \<^verbatim>\<open>Math.ceil\<close>. The ceiling of a number of the format is a number of the format, so
  nothing is rounded here.
\<close>

fun jceil :: "jsnum \<Rightarrow> jsnum" where
  "jceil (Fin a) = Fin (of_int \<lceil>a\<rceil>)"
| "jceil a = a"

fun jle :: "jsnum \<Rightarrow> jsnum \<Rightarrow> bool" where
  "jle (Fin a) (Fin b) = (a \<le> b)"
| "jle NaN _ = False"
| "jle _ NaN = False"
| "jle NInf _ = True"
| "jle _ PInf = True"
| "jle _ _ = False"

text \<open>\<^verbatim>\<open>Math.max(a, b)\<close>: \<^verbatim>\<open>NaN\<close> as soon as one argument is.\<close>

definition jmax :: "jsnum \<Rightarrow> jsnum \<Rightarrow> jsnum" where
  "jmax a b = (if a = NaN \<or> b = NaN then NaN else if jle a b then b else a)"

text \<open>The integer part of a rational, rounding towards zero.\<close>

definition trunc :: "rat \<Rightarrow> int" where
  "trunc a = (if 0 \<le> a then \<lfloor>a\<rfloor> else \<lceil>a\<rceil>)"

text \<open>
  \<^verbatim>\<open>Array.prototype.slice(start, end)\<close>. Both bounds go through
  \<^verbatim>\<open>ToIntegerOrInfinity\<close> (\<^verbatim>\<open>NaN\<close> is 0, fractions are truncated); a negative bound
  counts from the end of the array; both are clamped into \<open>0 .. length\<close>.
\<close>

fun slice_bound :: "int \<Rightarrow> jsnum \<Rightarrow> int" where
  "slice_bound len NaN = 0"
| "slice_bound len NInf = 0"
| "slice_bound len PInf = len"
| "slice_bound len (Fin a) = (if trunc a < 0 then max (len + trunc a) 0 else min (trunc a) len)"

definition slice :: "'a list \<Rightarrow> jsnum \<Rightarrow> jsnum \<Rightarrow> 'a list" where
  "slice xs start stop =
     (let len = int (length xs);
          k = slice_bound len start;
          final = slice_bound len stop
      in take (nat (final - k)) (drop (nat k) xs))"

section \<open>JavaScript strings\<close>

text \<open>
  Strings are ASCII. \<^verbatim>\<open>toUpperCase\<close> and \<^verbatim>\<open>toLowerCase\<close> map the 26 letters and leave
  every other character alone.
\<close>

definition lower_letters :: string where
  "lower_letters = ''abcdefghijklmnopqrstuvwxyz''"

definition upper_letters :: string where
  "upper_letters = ''ABCDEFGHIJKLMNOPQRSTUVWXYZ''"

definition toUpperCase :: "string \<Rightarrow> string" where
  "toUpperCase s =
     map (\<lambda>c. case map_of (zip lower_letters upper_letters) c of Some u \<Rightarrow> u | None \<Rightarrow> c) s"

definition toLowerCase :: "string \<Rightarrow> string" where
  "toLowerCase s =
     map (\<lambda>c. case map_of (zip upper_letters lower_letters) c of Some l \<Rightarrow> l | None \<Rightarrow> c) s"

section \<open>String to number conversion\<close>

text \<open>
  \<^verbatim>\<open>Number(s)\<close> on a string: white space is trimmed from both ends, the empty string is 0,
  and what remains must be a numeric literal in full (an optionally signed decimal with an
  optional fraction and exponent, a signed \<^verbatim>\<open>Infinity\<close>, or an unsigned \<^verbatim>\<open>0x\<close>,
  \<^verbatim>\<open>0o\<close> or \<^verbatim>\<open>0b\<close> integer); anything else is \<^verbatim>\<open>NaN\<close>. The value of the
  literal is rounded to the format.
\<close>

definition is_space :: "char \<Rightarrow> bool" where
  "is_space c = (c \<in> set [CHR 0x09, CHR 0x0A, CHR 0x0B, CHR 0x0C, CHR 0x0D, CHR 0x20])"

definition trim :: "string \<Rightarrow> string" where
  "trim s = rev (dropWhile is_space (rev (dropWhile is_space s)))"

definition digit_of :: "char \<Rightarrow> nat option" where
  "digit_of c =
     map_of (zip ''0123456789abcdefABCDEF''
       [0, 1, 2, 3, 4, 5, 6, 7, 8, 9, 10, 11, 12, 13, 14, 15, 10, 11, 12, 13, 14, 15]) c"

definition is_digit :: "char \<Rightarrow> bool" where
  "is_digit c = (case digit_of c of Some d \<Rightarrow> d < 10 | None \<Rightarrow> False)"

fun digits_value :: "nat \<Rightarrow> string \<Rightarrow> nat \<Rightarrow> nat option" where
  "digits_value base [] acc = Some acc"
| "digits_value base (c # cs) acc =
     (case digit_of c of
        Some d \<Rightarrow> if d < base then digits_value base cs (acc * base + d) else None
      | None \<Rightarrow> None)"

text \<open>A non-empty run of digits of the given base, read in full.\<close>

definition integer_in_base :: "nat \<Rightarrow> string \<Rightarrow> nat option" where
  "integer_in_base base s = (if s = [] then None else digits_value base s 0)"

text \<open>The exponent part: absent, or \<^verbatim>\<open>e\<close> with an optional sign and at least one digit.\<close>

definition exponent_part :: "string \<Rightarrow> int option" where
  "exponent_part s =
     (case s of
        [] \<Rightarrow> Some 0
      | c # r \<Rightarrow>
          if c = CHR ''e'' \<or> c = CHR ''E'' then
            (case r of
               [] \<Rightarrow> None
             | d # r' \<Rightarrow>
                 if d = CHR ''+'' then map_option int (integer_in_base 10 r')
                 else if d = CHR ''-'' then map_option (\<lambda>n. - int n) (integer_in_base 10 r')
                 else map_option int (integer_in_base 10 r))
          else None)"

definition scale10 :: "rat \<Rightarrow> int \<Rightarrow> rat" where
  "scale10 m e = (if 0 \<le> e then m * 10 ^ nat e else m / 10 ^ nat (- e))"

definition decimal_literal :: "string \<Rightarrow> jsnum" where
  "decimal_literal s =
     (if s = ''Infinity'' then PInf
      else
        let ip = takeWhile is_digit s;
            r1 = dropWhile is_digit s;
            fp = (case r1 of [] \<Rightarrow> [] | c # t \<Rightarrow> if c = CHR ''.'' then takeWhile is_digit t else []);
            r2 = (case r1 of [] \<Rightarrow> [] | c # t \<Rightarrow> if c = CHR ''.'' then dropWhile is_digit t else r1)
        in if ip = [] \<and> fp = [] then NaN
           else
             (case (integer_in_base 10 (ip @ fp), exponent_part r2) of
                (Some m, Some e) \<Rightarrow> round_double (scale10 (of_nat m) (e - int (length fp)))
              | _ \<Rightarrow> NaN))"

definition radix_literal :: "string \<Rightarrow> nat option" where
  "radix_literal s =
     (case s of
        z # x # r \<Rightarrow>
          if z \<noteq> CHR ''0'' then None
          else if x = CHR ''x'' \<or> x = CHR ''X'' then Some 16
          else if x = CHR ''o'' \<or> x = CHR ''O'' then Some 8
          else if x = CHR ''b'' \<or> x = CHR ''B'' then Some 2
          else None
      | _ \<Rightarrow> None)"

definition string_to_number :: "string \<Rightarrow> jsnum" where
  "string_to_number s =
     (let t = trim s in
      if t = [] then Fin 0
      else
        (case radix_literal t of
           Some base \<Rightarrow>
             (case integer_in_base base (drop 2 t) of
                Some n \<Rightarrow> round_double (of_nat n)
              | None \<Rightarrow> NaN)
         | None \<Rightarrow>
             if hd t = CHR ''+'' then decimal_literal (tl t)
             else if hd t = CHR ''-'' then jneg (decimal_literal (tl t))
             else decimal_literal t))"

section \<open>JavaScript values\<close>

text \<open>
  The database handle, the query and the results of the backend are of type
  \<^verbatim>\<open>unknown\<close>: the code inspects them at run time. A value is a primitive, a function
  (known by a name only), an array, or an object given by the properties it exposes.
\<close>

datatype jsval =
    Undefined
  | Null
  | JBool bool
  | JNum jsnum
  | JStr string
  | JFun string
  | JArr "jsval list"
  | JObj "(string \<times> jsval) list"

fun typeof :: "jsval \<Rightarrow> string" where
  "typeof Undefined = ''undefined''"
| "typeof Null = ''object''"
| "typeof (JBool b) = ''boolean''"
| "typeof (JNum n) = ''number''"
| "typeof (JStr s) = ''string''"
| "typeof (JFun f) = ''function''"
| "typeof (JArr xs) = ''object''"
| "typeof (JObj kvs) = ''object''"

text \<open>
  \<^verbatim>\<open>v.k\<close> on a value that is neither \<^verbatim>\<open>null\<close> nor \<^verbatim>\<open>undefined\<close>, for the property
  names this program reads (none of them is defined by a built-in prototype): the
  property of an object, \<^verbatim>\<open>undefined\<close> on a primitive, an array or a function.
\<close>

fun member_of :: "jsval \<Rightarrow> string \<Rightarrow> jsval" where
  "member_of (JObj kvs) k = (case map_of kvs k of Some v \<Rightarrow> v | None \<Rightarrow> Undefined)"
| "member_of _ k = Undefined"

text \<open>\<^verbatim>\<open>k in v\<close>, where \<open>v\<close> has been checked to be a non-null object.\<close>

fun has_member :: "string \<Rightarrow> jsval \<Rightarrow> bool" where
  "has_member k (JObj kvs) = (map_of kvs k \<noteq> None)"
| "has_member k _ = False"

definition nullish :: "jsval \<Rightarrow> bool" where
  "nullish v = (v = Undefined \<or> v = Null)"

text \<open>\<^verbatim>\<open>v?.k\<close>.\<close>

definition optional_member :: "jsval \<Rightarrow> string \<Rightarrow> jsval" where
  "optional_member v k = (if nullish v then Undefined else member_of v k)"

fun isArray :: "jsval \<Rightarrow> bool" where
  "isArray (JArr xs) = True"
| "isArray _ = False"

fun elements :: "jsval \<Rightarrow> jsval list" where
  "elements (JArr xs) = xs"
| "elements _ = []"

text \<open>\<^verbatim>\<open>xs[0]\<close>: \<^verbatim>\<open>undefined\<close> on the empty array.\<close>

fun first_element :: "jsval list \<Rightarrow> jsval" where
  "first_element [] = Undefined"
| "first_element (x # xs) = x"

text \<open>
  \<^verbatim>\<open>Number(v)\<close>. An array converts through its string form: the empty array is the empty
  string, a one-element array is its element as a string, and a longer one contains a
  comma, which no numeric literal does. A plain object or a function is \<^verbatim>\<open>NaN\<close>.
\<close>

fun Number :: "jsval \<Rightarrow> jsnum" where
  "Number Undefined = NaN"
| "Number Null = Fin 0"
| "Number (JBool b) = Fin (if b then 1 else 0)"
| "Number (JNum n) = n"
| "Number (JStr s) = string_to_number s"
| "Number (JFun f) = NaN"
| "Number (JObj kvs) = NaN"
| "Number (JArr []) = Fin 0"
| "Number (JArr [Undefined]) = Fin 0"
| "Number (JArr [Null]) = Fin 0"
| "Number (JArr [JBool b]) = NaN"
| "Number (JArr [JNum n]) = n"
| "Number (JArr [JStr s]) = string_to_number s"
| "Number (JArr [JFun f]) = NaN"
| "Number (JArr [JArr xs]) = Number (JArr xs)"
| "Number (JArr [JObj kvs]) = NaN"
| "Number (JArr (x # y # zs)) = NaN"

section \<open>Errors, statements and the backend\<close>

text \<open>
  \<open>Error\<close> is a \<^verbatim>\<open>throw new Error(message)\<close> of the program, \<open>TypeError\<close> the run-time
  error of reading a property of \<^verbatim>\<open>null\<close> or \<^verbatim>\<open>undefined\<close> or of calling what is not
  a function, \<open>Rejected\<close> a failure of the backend.
\<close>

datatype error = Error string | TypeError | Rejected string

definition UnsupportedBackend :: error where
  "UnsupportedBackend =
     Error ''Unsupported database implementation. Please provide a DrizzleDb or PostgreSQL database.''"

text \<open>
  A statement built with the \<^verbatim>\<open>sql\<close> template tag, as the sequence of its pieces: the
  literal text of the template, a \<^verbatim>\<open>sql.raw\<close> string, a number parameter, the embedded
  query object, or the SQL the query object's \<^verbatim>\<open>getSQL()\<close> returned.
\<close>

datatype sql_chunk =
    Text string
  | Raw string
  | Param jsnum
  | Query jsval
  | QuerySQL jsval

type_synonym sql = "sql_chunk list"

text \<open>A call of a window operation on a composable query object.\<close>

datatype builder_call =
    OrderByCall sql_chunk string
  | LimitCall jsnum
  | OffsetCall jsnum

text \<open>
  What the program asks of the outside: \<^verbatim>\<open>db.execute(statement)\<close>,
  \<^verbatim>\<open>db.$client.query(statement.getSQL().toString())\<close>, or awaiting a query object after a
  chain of window operations.
\<close>

datatype request =
    DbExecute sql
  | ClientQuery sql
  | AwaitBuilder jsval "builder_call list"

text \<open>
  The outside world: how the backend answers each request (a failure or a result),
  whether a failing \<^verbatim>\<open>db.execute\<close> throws at the call instead of returning a promise
  that rejects, and the requests issued so far, oldest first.
\<close>

record world =
  respond :: "request \<Rightarrow> error + jsval"
  throws :: "request \<Rightarrow> bool"
  issued :: "request list"

definition issue :: "request \<Rightarrow> world \<Rightarrow> (error + jsval) \<times> world" where
  "issue r w = (respond w r, w\<lparr>issued := issued w @ [r]\<rparr>)"

text \<open>
  The execution adapter: the handle itself when it has a callable \<^verbatim>\<open>execute\<close>, or the
  wrapper the constructor builds around \<^verbatim>\<open>$client.query\<close>.
\<close>

datatype adapter = DrizzleAdapter jsval | PostgresAdapter jsval

fun adapter_request :: "adapter \<Rightarrow> sql \<Rightarrow> request" where
  "adapter_request (DrizzleAdapter db) q = DbExecute q"
| "adapter_request (PostgresAdapter db) q = ClientQuery q"

text \<open>
  A call of the adapter either throws or returns (a promise of) an answer. The handle's
  own \<^verbatim>\<open>execute\<close> may do either; the wrapper around \<^verbatim>\<open>$client.query\<close> is an
  \<^verbatim>\<open>async\<close> function, so it always returns.
\<close>

datatype call_result = Threw error | Returned "error + jsval"

definition execute :: "adapter \<Rightarrow> sql \<Rightarrow> world \<Rightarrow> call_result \<times> world" where
  "execute a q w =
     (let r = adapter_request a q;
          w' = w\<lparr>issued := issued w @ [r]\<rparr>
      in case a of
           DrizzleAdapter db \<Rightarrow>
             (case respond w r of
                Inl e \<Rightarrow> if throws w r then (Threw e, w') else (Returned (Inl e), w')
              | Inr v \<Rightarrow> (Returned (Inr v), w'))
         | PostgresAdapter db \<Rightarrow> (Returned (respond w r), w'))"

section \<open>Type guards\<close>

definition isPostgresDb :: "jsval \<Rightarrow> bool" where
  "isPostgresDb db =
     (typeof db = ''object'' \<and> db \<noteq> Null \<and> has_member ''$client'' db \<and>
      typeof (optional_member (member_of db ''$client'') ''query'') = ''function'')"

definition hasRows :: "jsval \<Rightarrow> bool" where
  "hasRows result =
     (typeof result = ''object'' \<and> result \<noteq> Null \<and> has_member ''rows'' result \<and>
      isArray (member_of result ''rows''))"

definition isDrizzleQueryBuilder :: "jsval \<Rightarrow> bool" where
  "isDrizzleQueryBuilder query =
     (typeof query = ''object'' \<and> query \<noteq> Null \<and> has_member ''limit'' query \<and>
      has_member ''offset'' query \<and> typeof (member_of query ''limit'') = ''function'' \<and>
      typeof (member_of query ''offset'') = ''function'')"

section \<open>The paginator\<close>

record paginator =
  baseQuery :: jsval
  currentPage :: jsnum
  itemsPerPage :: jsnum
  sortBy :: "string option"
  sortDirection :: string
  mapper :: "(jsval \<Rightarrow> jsval) option"
  allowedColumns :: "string list"
  countColumn :: string
  dbAdapter :: adapter
  isDirectQuery :: bool

record 'a pagination_result =
  data :: "'a list"
  total :: jsnum
  res_perPage :: jsnum
  res_currentPage :: jsnum
  lastPage :: jsnum
  res_from :: jsnum
  res_to :: jsnum

text \<open>
  Two revisions of the class are in the repository. The current one
  (\<^verbatim>\<open>src/unnamed/part_000\<close>) has a sort column that may be \<^verbatim>\<open>null\<close> and two
  strategies; the earlier one (\<^verbatim>\<open>src/index.ts\<close>) has a sort column that is always a
  string, initially \<^verbatim>\<open>"id"\<close>, and one strategy. Constructor check, setters and the
  helper \<^verbatim>\<open>withSqlPagination\<close> are the same text in both. Both are modelled on the one
  record; the earlier revision never reads \<open>isDirectQuery\<close> and never has \<open>sortBy = None\<close>.

  The fields as the current revision initialises them, given the adapter and the query.
\<close>

definition initial :: "adapter \<Rightarrow> jsval \<Rightarrow> string option \<Rightarrow> paginator" where
  "initial a query cc =
     \<lparr>baseQuery = query, currentPage = Fin 1, itemsPerPage = Fin 10, sortBy = None,
      sortDirection = ''ASC'', mapper = None, allowedColumns = [],
      countColumn = (case cc of None \<Rightarrow> ''*'' | Some c \<Rightarrow> c),
      dbAdapter = a, isDirectQuery = isDrizzleQueryBuilder query\<rparr>"

text \<open>The fields as \<^verbatim>\<open>src/index.ts\<close> initialises them.\<close>

definition initial_index_ts :: "adapter \<Rightarrow> jsval \<Rightarrow> string option \<Rightarrow> paginator" where
  "initial_index_ts a query cc =
     \<lparr>baseQuery = query, currentPage = Fin 1, itemsPerPage = Fin 10, sortBy = Some ''id'',
      sortDirection = ''ASC'', mapper = None, allowedColumns = [],
      countColumn = (case cc of None \<Rightarrow> ''*'' | Some c \<Rightarrow> c),
      dbAdapter = a, isDirectQuery = False\<rparr>"

text \<open>
  The constructor. Reading \<^verbatim>\<open>db.execute\<close> comes first and is unguarded, so it throws on
  \<^verbatim>\<open>null\<close> and \<^verbatim>\<open>undefined\<close>. The world is returned as it was given: the constructor
  issues no request.
\<close>

definition DrizzlePaginator ::
  "jsval \<Rightarrow> jsval \<Rightarrow> string option \<Rightarrow> world \<Rightarrow> (error + paginator) \<times> world" where
  "DrizzlePaginator db query cc w =
     (if nullish db then (Inl TypeError, w)
      else if typeof (member_of db ''execute'') = ''function''
        then (Inr (initial (DrizzleAdapter db) query cc), w)
      else if isPostgresDb db
        then (Inr (initial (PostgresAdapter db) query cc), w)
      else (Inl UnsupportedBackend, w))"

definition DrizzlePaginator_index_ts ::
  "jsval \<Rightarrow> jsval \<Rightarrow> string option \<Rightarrow> world \<Rightarrow> (error + paginator) \<times> world" where
  "DrizzlePaginator_index_ts db query cc w =
     (if nullish db then (Inl TypeError, w)
      else if typeof (member_of db ''execute'') = ''function''
        then (Inr (initial_index_ts (DrizzleAdapter db) query cc), w)
      else if isPostgresDb db
        then (Inr (initial_index_ts (PostgresAdapter db) query cc), w)
      else (Inl UnsupportedBackend, w))"

definition page :: "jsnum \<Rightarrow> paginator \<Rightarrow> paginator" where
  "page n s = s\<lparr>currentPage := jmax (Fin 1) n\<rparr>"

definition perPage :: "jsnum \<Rightarrow> paginator \<Rightarrow> paginator" where
  "perPage n s = s\<lparr>itemsPerPage := jmax (Fin 1) n\<rparr>"

text \<open>\<^verbatim>\<open>orderBy(column, direction = "asc")\<close>: an omitted direction is \<^verbatim>\<open>"asc"\<close>.\<close>

definition orderBy :: "string \<Rightarrow> string option \<Rightarrow> paginator \<Rightarrow> paginator" where
  "orderBy column direction s =
     s\<lparr>sortBy := Some (if length (allowedColumns s) = 0 \<or> column \<in> set (allowedColumns s)
                       then column else ''id''),
       sortDirection := toUpperCase (case direction of None \<Rightarrow> ''asc'' | Some d \<Rightarrow> d)\<rparr>"

definition allowColumns :: "string list \<Rightarrow> paginator \<Rightarrow> paginator" where
  "allowColumns columns s = s\<lparr>allowedColumns := columns\<rparr>"

definition map_with :: "(jsval \<Rightarrow> jsval) \<Rightarrow> paginator \<Rightarrow> paginator" where
  "map_with mapperFn s = s\<lparr>mapper := Some mapperFn\<rparr>"

section \<open>Running a page\<close>

text \<open>
  The total of a count result: \<^verbatim>\<open>Number(rows[0].count)\<close> when the result has a
  \<^verbatim>\<open>rows\<close> array and \<^verbatim>\<open>rows[0]?.count\<close> is not \<^verbatim>\<open>undefined\<close>, and 0 otherwise.
\<close>

definition totalItems_of :: "jsval \<Rightarrow> jsnum" where
  "totalItems_of countResult =
     (if hasRows countResult \<and>
         optional_member (first_element (elements (member_of countResult ''rows''))) ''count''
           \<noteq> Undefined
      then Number (member_of (first_element (elements (member_of countResult ''rows''))) ''count'')
      else Fin 0)"

definition apply_mapper :: "(jsval \<Rightarrow> jsval) option \<Rightarrow> jsval list \<Rightarrow> jsval list" where
  "apply_mapper m rows = (case m of Some f \<Rightarrow> map f rows | None \<Rightarrow> rows)"

definition envelope ::
  "paginator \<Rightarrow> jsnum \<Rightarrow> jsnum \<Rightarrow> jsval list \<Rightarrow> jsval pagination_result" where
  "envelope s offset totalItems rows =
     \<lparr>data = rows, total = totalItems, res_perPage = itemsPerPage s,
      res_currentPage = currentPage s,
      lastPage = jceil (jdiv totalItems (itemsPerPage s)),
      res_from = jadd offset (Fin 1),
      res_to = jadd offset (Fin (of_nat (length rows)))\<rparr>"

text \<open>The two statements of the subquery style.\<close>

definition subquery_count :: "paginator \<Rightarrow> sql" where
  "subquery_count s =
     [Text ''SELECT COUNT('', Raw (countColumn s), Text '') as count FROM ('',
      Query (baseQuery s), Text '') as subquery'']"

definition subquery_data :: "paginator \<Rightarrow> jsnum \<Rightarrow> sql" where
  "subquery_data s offset =
     (case sortBy s of
        Some column \<Rightarrow>
          [Text ''\<newline>        SELECT * FROM ('', Query (baseQuery s),
           Text '') as subquery\<newline>        ORDER BY '', Raw column, Text '' '',
           Raw (sortDirection s), Text ''\<newline>        LIMIT '', Param (itemsPerPage s),
           Text '' OFFSET '', Param offset, Text ''\<newline>      '']
      | None \<Rightarrow>
          [Text ''\<newline>        SELECT * FROM ('', Query (baseQuery s),
           Text '') as subquery\<newline>        LIMIT '', Param (itemsPerPage s),
           Text '' OFFSET '', Param offset, Text ''\<newline>      ''])"

text \<open>
  The two calls of the adapter are made one after the other, while the argument of
  \<^verbatim>\<open>Promise.all\<close> is built: a call that throws ends \<^verbatim>\<open>paginate\<close> there, before the
  next request is issued. When both return, both answers are awaited; when both fail, the
  failure of the count is the one reported here. An array has fewer than \<^verbatim>\<open>2^32\<close>
  elements, so its length is a number of the format.
\<close>

definition paginateSubqueryStyle ::
  "paginator \<Rightarrow> jsnum \<Rightarrow> world \<Rightarrow> (error + jsval pagination_result) \<times> world" where
  "paginateSubqueryStyle s offset w =
     (case execute (dbAdapter s) (subquery_count s) w of
        (Threw e, w1) \<Rightarrow> (Inl e, w1)
      | (Returned countAnswer, w1) \<Rightarrow>
          (case execute (dbAdapter s) (subquery_data s offset) w1 of
             (Threw e, w2) \<Rightarrow> (Inl e, w2)
           | (Returned dataAnswer, w2) \<Rightarrow>
               (case countAnswer of
                  Inl e \<Rightarrow> (Inl e, w2)
                | Inr countResult \<Rightarrow>
                    (case dataAnswer of
                       Inl e \<Rightarrow> (Inl e, w2)
                     | Inr dataResult \<Rightarrow>
                         (Inr (envelope s offset (totalItems_of countResult)
                            (if hasRows dataResult
                             then apply_mapper (mapper s) (elements (member_of dataResult ''rows''))
                             else [])), w2)))))"

text \<open>The count statement and the window operations of the direct style.\<close>

definition direct_count :: "paginator \<Rightarrow> sql" where
  "direct_count s =
     [Text ''SELECT COUNT('', Raw (countColumn s), Text '') as count FROM ('',
      QuerySQL (baseQuery s), Text '') as subquery'']"

definition direct_calls :: "paginator \<Rightarrow> jsnum \<Rightarrow> builder_call list" where
  "direct_calls s offset =
     (case sortBy s of
        Some column \<Rightarrow> [OrderByCall (Raw column) (toLowerCase (sortDirection s))]
      | None \<Rightarrow> [])
     @ [LimitCall (itemsPerPage s), OffsetCall offset]"

text \<open>
  The direct style calls \<^verbatim>\<open>getSQL\<close> on the query object and, when a sort column is set,
  \<^verbatim>\<open>orderBy\<close>; the type guard has checked neither, so either call can throw. The window
  operations are taken to return a query object of the same shape. The count goes through
  the adapter, the data comes from awaiting the query object itself. The
  \<^verbatim>\<open>console.log\<close> of the count result is left out.
\<close>

definition paginateDirectQuery ::
  "paginator \<Rightarrow> jsnum \<Rightarrow> world \<Rightarrow> (error + jsval pagination_result) \<times> world" where
  "paginateDirectQuery s offset w =
     (if \<not> isDrizzleQueryBuilder (baseQuery s)
        then (Inl (Error ''Expected a Drizzle query builder with limit/offset methods''), w)
      else if typeof (member_of (baseQuery s) ''getSQL'') \<noteq> ''function''
        then (Inl TypeError, w)
      else if sortBy s \<noteq> None \<and> typeof (member_of (baseQuery s) ''orderBy'') \<noteq> ''function''
        then (Inl TypeError, w)
      else
        (case execute (dbAdapter s) (direct_count s) w of
           (Threw e, w1) \<Rightarrow> (Inl e, w1)
         | (Returned countAnswer, w1) \<Rightarrow>
             (case issue (AwaitBuilder (baseQuery s) (direct_calls s offset)) w1 of
                (dataAnswer, w2) \<Rightarrow>
                  (case countAnswer of
                     Inl e \<Rightarrow> (Inl e, w2)
                   | Inr countResult \<Rightarrow>
                       (case dataAnswer of
                          Inl e \<Rightarrow> (Inl e, w2)
                        | Inr dataResult \<Rightarrow>
                            (Inr (envelope s offset (totalItems_of countResult)
                               (if isArray dataResult
                                  then apply_mapper (mapper s) (elements dataResult)
                                else if hasRows dataResult
                                  then apply_mapper (mapper s)
                                         (elements (member_of dataResult ''rows''))
                                else [])), w2))))))"

text \<open>
  \<^verbatim>\<open>paginate(perPage?)\<close>: the result or the error, the paginator after the call (an
  override of the page size is stored), and the world after the call.
\<close>

definition paginate ::
  "jsnum option \<Rightarrow> paginator \<Rightarrow> world \<Rightarrow>
     (error + jsval pagination_result) \<times> paginator \<times> world" where
  "paginate override s w =
     (let s' = (case override of
                  Some n \<Rightarrow> s\<lparr>itemsPerPage := jmax (Fin 1) n\<rparr>
                | None \<Rightarrow> s);
          offset = jmul (jsub (currentPage s') (Fin 1)) (itemsPerPage s');
          (r, w') = (if isDirectQuery s' \<and> isDrizzleQueryBuilder (baseQuery s')
                     then paginateDirectQuery s' offset w
                     else paginateSubqueryStyle s' offset w)
      in (r, s', w'))"

section \<open>Running a page in the earlier revision\<close>

text \<open>
  \<^verbatim>\<open>paginate\<close> of \<^verbatim>\<open>src/index.ts\<close>: the count statement is the one above; the data
  statement comes from a single template, which always has the \<^verbatim>\<open>ORDER BY\<close> line. The
  sort column is a string in this revision; the record holds it under \<open>Some\<close>.
\<close>

definition sort_column :: "paginator \<Rightarrow> string" where
  "sort_column s = (case sortBy s of Some column \<Rightarrow> column | None \<Rightarrow> ''id'')"

definition index_ts_data :: "paginator \<Rightarrow> jsnum \<Rightarrow> sql" where
  "index_ts_data s offset =
     [Text ''\<newline>      SELECT * FROM ('', Query (baseQuery s),
      Text '') as subquery\<newline>      ORDER BY '', Raw (sort_column s), Text '' '',
      Raw (sortDirection s), Text ''\<newline>      LIMIT '', Param (itemsPerPage s),
      Text '' OFFSET '', Param offset, Text ''\<newline>    '']"

definition paginate_index_ts ::
  "jsnum option \<Rightarrow> paginator \<Rightarrow> world \<Rightarrow>
     (error + jsval pagination_result) \<times> paginator \<times> world" where
  "paginate_index_ts override s w =
     (let s' = (case override of
                  Some n \<Rightarrow> s\<lparr>itemsPerPage := jmax (Fin 1) n\<rparr>
                | None \<Rightarrow> s);
          offset = jmul (jsub (currentPage s') (Fin 1)) (itemsPerPage s')
      in case execute (dbAdapter s') (subquery_count s') w of
           (Threw e, w1) \<Rightarrow> (Inl e, s', w1)
         | (Returned countAnswer, w1) \<Rightarrow>
             (case execute (dbAdapter s') (index_ts_data s' offset) w1 of
                (Threw e, w2) \<Rightarrow> (Inl e, s', w2)
              | (Returned dataAnswer, w2) \<Rightarrow>
                  (case countAnswer of
                     Inl e \<Rightarrow> (Inl e, s', w2)
                   | Inr countResult \<Rightarrow>
                       (case dataAnswer of
                          Inl e \<Rightarrow> (Inl e, s', w2)
                        | Inr dataResult \<Rightarrow>
                            (Inr (envelope s' offset (totalItems_of countResult)
                               (if hasRows dataResult
                                then apply_mapper (mapper s')
                                       (elements (member_of dataResult ''rows''))
                                else [])), s', w2)))))"

section \<open>Paginating a fetched result\<close>

text \<open>
  The part of a \<^verbatim>\<open>QueryResult\<close> the helper reads: the rows, and the row count, which the
  driver declares as a number or \<^verbatim>\<open>null\<close>.
\<close>

record 'a query_result =
  rows :: "'a list"
  rowCount :: "jsnum option"

definition withSqlPagination ::
  "'a query_result \<Rightarrow> jsnum \<Rightarrow> jsnum \<Rightarrow> 'a pagination_result" where
  "withSqlPagination queryResult perPage' page' =
     (let totalItems = (case rowCount queryResult of Some c \<Rightarrow> c | None \<Rightarrow> Fin 0);
          offset = jmul (jsub page' (Fin 1)) perPage';
          rs = slice (rows queryResult) offset (jadd offset perPage');
          totalPages = jceil (jdiv totalItems perPage')
      in \<lparr>data = rs, total = totalItems, res_perPage = perPage', res_currentPage = page',
          lastPage = totalPages, res_from = jadd offset (Fin 1),
          res_to = jadd offset (Fin (of_nat (length rs)))\<rparr>)"

section \<open>Histories of fluent calls\<close>

text \<open>
  The setters of the fluent interface, as values, so that a property can speak of every
  paginator reached from a fresh one by some sequence of calls.
\<close>

datatype setter =
    Page jsnum
  | PerPage jsnum
  | OrderBy string "string option"
  | AllowColumns "string list"
  | MapWith "jsval \<Rightarrow> jsval"

fun apply_setter :: "setter \<Rightarrow> paginator \<Rightarrow> paginator" where
  "apply_setter (Page n) s = page n s"
| "apply_setter (PerPage n) s = perPage n s"
| "apply_setter (OrderBy column direction) s = orderBy column direction s"
| "apply_setter (AllowColumns columns) s = allowColumns columns s"
| "apply_setter (MapWith f) s = map_with f s"

definition configure :: "setter list \<Rightarrow> paginator \<Rightarrow> paginator" where
  "configure cs s = fold apply_setter cs s"

fun is_OrderBy :: "setter \<Rightarrow> bool" where
  "is_OrderBy (OrderBy column direction) = True"
| "is_OrderBy _ = False"

section \<open>Ordering clauses in what is sent\<close>

text \<open>
  A piece of a statement carries an ordering clause when its text (the template's or a
  raw string's) contains \<^verbatim>\<open>ORDER BY\<close> in either case. The embedded query object is the
  caller's and is not looked into.
\<close>

definition mentions_order_by :: "string \<Rightarrow> bool" where
  "mentions_order_by t = sublist ''ORDER BY'' (toUpperCase t)"

fun chunk_orders :: "sql_chunk \<Rightarrow> bool" where
  "chunk_orders (Text t) = mentions_order_by t"
| "chunk_orders (Raw t) = mentions_order_by t"
| "chunk_orders _ = False"

fun is_OrderByCall :: "builder_call \<Rightarrow> bool" where
  "is_OrderByCall (OrderByCall column direction) = True"
| "is_OrderByCall _ = False"

fun request_orders :: "request \<Rightarrow> bool" where
  "request_orders (DbExecute q) = list_ex chunk_orders q"
| "request_orders (ClientQuery q) = list_ex chunk_orders q"
| "request_orders (AwaitBuilder b calls) = list_ex is_OrderByCall calls"

section \<open>Example inputs\<close>

text \<open>
  Handles and queries of the recognised shapes, and a backend that answers every count
  statement with the given count result and everything else with the given rows.
\<close>

definition drizzle_db :: jsval where
  "drizzle_db = JObj [(''execute'', JFun ''execute'')]"

definition postgres_db :: jsval where
  "postgres_db = JObj [(''$client'', JObj [(''query'', JFun ''query'')])]"

definition relational_query :: jsval where
  "relational_query = JObj [(''getSQL'', JFun ''getSQL'')]"

definition select_query :: jsval where
  "select_query =
     JObj [(''getSQL'', JFun ''getSQL''), (''orderBy'', JFun ''orderBy''),
           (''limit'', JFun ''limit''), (''offset'', JFun ''offset'')]"

fun is_count_statement :: "sql \<Rightarrow> bool" where
  "is_count_statement (Text t # q) = (t = ''SELECT COUNT('')"
| "is_count_statement _ = False"

definition rows_result :: "jsval list \<Rightarrow> jsval" where
  "rows_result rs = JObj [(''rows'', JArr rs)]"

definition count_result :: "jsval \<Rightarrow> jsval" where
  "count_result c = rows_result [JObj [(''count'', c)]]"

fun fixed_backend :: "jsval \<Rightarrow> jsval list \<Rightarrow> request \<Rightarrow> error + jsval" where
  "fixed_backend countResult rs (DbExecute q) =
     Inr (if is_count_statement q then countResult else rows_result rs)"
| "fixed_backend countResult rs (ClientQuery q) =
     Inr (if is_count_statement q then countResult else rows_result rs)"
| "fixed_backend countResult rs (AwaitBuilder b calls) = Inr (JArr rs)"

definition fixed_world :: "jsval \<Rightarrow> jsval list \<Rightarrow> world" where
  "fixed_world countResult rs =
     \<lparr>respond = fixed_backend countResult rs, throws = (\<lambda>r. False), issued = []\<rparr>"

text \<open>A backend whose \<^verbatim>\<open>execute\<close> throws on every call.\<close>

definition throwing_world :: world where
  "throwing_world =
     \<lparr>respond = (\<lambda>r. Inl (Rejected ''connection refused'')), throws = (\<lambda>r. True),
      issued = []\<rparr>"

definition id_rows :: "nat list \<Rightarrow> jsval list" where
  "id_rows ns = map (\<lambda>n. JObj [(''id'', JNum (Fin (of_nat n)))]) ns"

section \<open>Facts about rounding\<close>

lemma floor_log2_lower:
  assumes "0 < x"
  shows "2 powi floor_log2 x \<le> x"
proof (cases "1 \<le> x")
  case True
  then have n: "0 < \<lfloor>x\<rfloor>" by simp
  have nonneg: "0 \<le> bitlen \<lfloor>x\<rfloor> - 1"
    using n by (simp add: bitlen_alt_def)
  from bitlen_bounds [OF n] have "2 ^ nat (bitlen \<lfloor>x\<rfloor> - 1) \<le> \<lfloor>x\<rfloor>" by simp
  then have "(of_int (2 ^ nat (bitlen \<lfloor>x\<rfloor> - 1)) :: rat) \<le> of_int \<lfloor>x\<rfloor>"
    by (simp only: of_int_le_iff)
  also have "\<dots> \<le> x" by simp
  finally have "(2 :: rat) ^ nat (bitlen \<lfloor>x\<rfloor> - 1) \<le> x" by simp
  with True nonneg show ?thesis
    by (simp add: floor_log2_def power_int_def)
next
  case False
  define m where "m = \<lceil>1 / x\<rceil>"
  define l where "l = bitlen (m - 1)"
  from False assms have "1 < 1 / x" by simp
  then have m2: "2 \<le> m" unfolding m_def by linarith
  then have pos: "0 < m - 1" by simp
  from bitlen_bounds [OF pos] have "m - 1 < 2 ^ nat l" by (simp add: l_def)
  then have "m \<le> 2 ^ nat l" by simp
  then have "(of_int m :: rat) \<le> of_int (2 ^ nat l)" by (simp only: of_int_le_iff)
  then have b: "(of_int m :: rat) \<le> 2 ^ nat l" by simp
  have a: "1 / x \<le> of_int m" unfolding m_def by simp
  from a b have "1 / x \<le> 2 ^ nat l" by (rule order_trans)
  with assms have "1 \<le> 2 ^ nat l * x"
    by (simp add: divide_le_eq)
  then have "1 / 2 ^ nat l \<le> x"
    by (simp add: divide_le_eq mult.commute)
  moreover have "1 \<le> l" using pos by (simp add: l_def bitlen_alt_def)
  ultimately show ?thesis
    using False by (simp add: floor_log2_def power_int_def l_def m_def inverse_eq_divide power_one_over)
qed

lemma floor_log2_upper:
  assumes "0 < x"
  shows "x < 2 powi (floor_log2 x + 1)"
proof (cases "1 \<le> x")
  case True
  then have n: "0 < \<lfloor>x\<rfloor>" by simp
  have nonneg: "0 \<le> bitlen \<lfloor>x\<rfloor>"
    by (simp add: bitlen_nonneg)
  from bitlen_bounds [OF n] have "\<lfloor>x\<rfloor> < 2 ^ nat (bitlen \<lfloor>x\<rfloor>)" by simp
  then have "\<lfloor>x\<rfloor> + 1 \<le> 2 ^ nat (bitlen \<lfloor>x\<rfloor>)" by simp
  then have "(of_int (\<lfloor>x\<rfloor> + 1) :: rat) \<le> of_int (2 ^ nat (bitlen \<lfloor>x\<rfloor>))"
    by (simp only: of_int_le_iff)
  moreover have "x < of_int (\<lfloor>x\<rfloor> + 1)" by linarith
  ultimately have "x < 2 ^ nat (bitlen \<lfloor>x\<rfloor>)" by simp
  with True nonneg show ?thesis
    by (simp add: floor_log2_def power_int_def)
next
  case False
  define m where "m = \<lceil>1 / x\<rceil>"
  define l where "l = bitlen (m - 1)"
  from False assms have "1 < 1 / x" by simp
  then have m2: "2 \<le> m" unfolding m_def by linarith
  then have pos: "0 < m - 1" by simp
  have l1: "1 \<le> l" using pos by (simp add: l_def bitlen_alt_def)
  from bitlen_bounds [OF pos] have "2 ^ nat (l - 1) \<le> m - 1" by (simp add: l_def)
  then have "(of_int (2 ^ nat (l - 1)) :: rat) \<le> of_int (m - 1)" by (simp only: of_int_le_iff)
  moreover have "of_int (m - 1) < 1 / x" unfolding m_def by linarith
  ultimately have "2 ^ nat (l - 1) < 1 / x" by simp
  with assms have "2 ^ nat (l - 1) * x < 1"
    by (simp add: less_divide_eq)
  then have "x < 1 / 2 ^ nat (l - 1)"
    by (simp add: less_divide_eq mult.commute)
  then show ?thesis
    using False l1 by (simp add: floor_log2_def power_int_def l_def m_def inverse_eq_divide power_one_over)
qed

lemma floor_log2_less:
  assumes "0 < x" "x < 2 powi k"
  shows "floor_log2 x < k"
proof (rule ccontr)
  assume "\<not> floor_log2 x < k"
  then have "k \<le> floor_log2 x" by simp
  then have "(2::rat) powi k \<le> 2 powi floor_log2 x"
    by (rule power_int_increasing) simp
  also have "\<dots> \<le> x" using assms(1) by (rule floor_log2_lower)
  finally show False using assms(2) by simp
qed

lemma floor_log2_ge:
  assumes "0 < x" "2 powi k \<le> x"
  shows "k \<le> floor_log2 x"
proof (rule ccontr)
  assume "\<not> k \<le> floor_log2 x"
  then have "floor_log2 x + 1 \<le> k" by simp
  then have "(2::rat) powi (floor_log2 x + 1) \<le> 2 powi k"
    by (rule power_int_increasing) simp
  moreover have "x < 2 powi (floor_log2 x + 1)" using assms(1) by (rule floor_log2_upper)
  ultimately show False using assms(2) by simp
qed

lemma round_half_even_of_int: "round_half_even (of_int n) = n"
  by (simp add: round_half_even_def)

lemma round_half_even_ge_floor: "\<lfloor>x\<rfloor> \<le> round_half_even x"
  by (simp add: round_half_even_def Let_def)

lemma round_half_even_le: "round_half_even x \<le> \<lfloor>x\<rfloor> + 1"
  by (simp add: round_half_even_def Let_def)

lemma round_half_even_up: "1 / 2 < x - of_int \<lfloor>x\<rfloor> \<Longrightarrow> round_half_even x = \<lfloor>x\<rfloor> + 1"
  by (simp add: round_half_even_def Let_def)

lemma round_double_pow53:
  "round_double 9007199254740992 = Fin 9007199254740992"
  "round_double (- 9007199254740992) = Fin (- 9007199254740992)"
  by code_simp+

text \<open>Integers up to \<^verbatim>\<open>2^53\<close> in magnitude are numbers of the format: rounding keeps them.\<close>

lemma round_double_int:
  assumes "\<bar>n\<bar> \<le> 2 ^ 53"
  shows "round_double (of_int n) = Fin (of_int n)"
proof -
  consider "n = 0" | "n = 2 ^ 53" | "n = - (2 ^ 53)" | "n \<noteq> 0" "\<bar>n\<bar> < 2 ^ 53"
    using assms by fastforce
  then show ?thesis
  proof cases
    case 1
    then show ?thesis by (simp add: round_double_def)
  next
    case 2
    then show ?thesis using round_double_pow53(1) by simp
  next
    case 3
    then show ?thesis using round_double_pow53(2) by simp
  next
    case 4
    define x :: rat where "x = of_int n"
    define e where "e = floor_log2 \<bar>x\<bar>"
    have ax: "\<bar>x\<bar> = of_int \<bar>n\<bar>" by (simp add: x_def)
    have pos: "0 < \<bar>x\<bar>" using 4(1) by (simp add: x_def)
    have "1 \<le> \<bar>n\<bar>" using 4(1) by simp
    then have "(1::rat) \<le> of_int \<bar>n\<bar>" by (simp only: of_int_1_le_iff)
    then have "2 powi 0 \<le> \<bar>x\<bar>" by (simp add: ax)
    with pos have e0: "0 \<le> e" unfolding e_def by (rule floor_log2_ge)
    have "(of_int \<bar>n\<bar> :: rat) < of_int (2 ^ 53)" using 4(2) by (simp only: of_int_less_iff)
    then have "\<bar>x\<bar> < 2 powi 53" by (simp add: ax)
    with pos have e53: "e < 53" unfolding e_def by (rule floor_log2_less)
    define k where "k = nat (52 - e)"
    have q: "max (e - 52) (- 1074) = e - 52" using e0 by simp
    have p: "(2::rat) powi (e - 52) = 1 / 2 ^ k"
      using e53 by (simp add: power_int_def k_def inverse_eq_divide power_one_over)
    have m: "x / 2 powi (e - 52) = of_int (n * 2 ^ k)"
      by (simp add: p x_def)
    have x0: "x \<noteq> 0" using 4(1) by (simp add: x_def)
    have "round_double x = Fin (of_int (n * 2 ^ k) * (1 / 2 ^ k))"
      unfolding round_double_def Let_def e_def [symmetric] q m round_half_even_of_int p [symmetric]
      using x0 e53 by simp
    then show ?thesis by (simp add: x_def)
  qed
qed


text \<open>
  The quotient of two integers, the dividend below \<^verbatim>\<open>2^53\<close>, may be rounded, but never
  across an integer: its ceiling is the ceiling of the exact quotient.
\<close>

lemma round_double_quotient:
  fixes n k :: int
  assumes n: "0 \<le> n" "n < 2 ^ 53" and k: "1 \<le> k" "k \<le> 2 ^ 53"
  shows "\<exists>y. round_double (of_int n / of_int k) = Fin y \<and> \<lceil>y\<rceil> = \<lceil>of_int n / of_int k :: rat\<rceil>"
proof (cases "k dvd n")
  case True
  then obtain c where c: "n = k * c" ..
  with n k have c0: "0 \<le> c" by (simp add: zero_le_mult_iff)
  have "c \<le> k * c" using k c0 by (simp add: mult_le_cancel_right1)
  with c n have "\<bar>c\<bar> \<le> 2 ^ 53" using c0 by simp
  then have "round_double (of_int c) = Fin (of_int c)" by (rule round_double_int)
  moreover have "(of_int n / of_int k :: rat) = of_int c" using c k by simp
  ultimately show ?thesis by simp
next
  case False
  define x :: rat where "x = of_int n / of_int k"
  define j where "j = \<lfloor>x\<rfloor>"
  define e where "e = floor_log2 \<bar>x\<bar>"
  have kpos: "(0::rat) < of_int k" using k by simp
  have n1: "1 \<le> n" using False n by (cases "n = 0") auto
  have notint: "x \<noteq> of_int j"
  proof
    assume "x = of_int j"
    then have "(of_int n :: rat) = of_int (j * k)" using kpos by (simp add: x_def divide_eq_eq)
    then have "n = j * k" by (simp only: of_int_eq_iff)
    with False show False by simp
  qed
  have "of_int j \<le> x" unfolding j_def by simp
  with notint have jx: "of_int j < x" by simp
  have xj: "x < of_int j + 1" unfolding j_def by linarith
  have ceil: "\<lceil>x\<rceil> = j + 1" using jx xj by (simp add: ceiling_unique)
  have xpos: "0 < x" using n1 kpos by (simp add: x_def)
  then have ax: "\<bar>x\<bar> = x" by simp
  have "0 < n - j * k"
  proof -
    have "of_int j * of_int k < (of_int n :: rat)" using jx kpos by (simp add: x_def less_divide_eq)
    then have "(of_int (j * k) :: rat) < of_int n" by simp
    then have "j * k < n" by (simp only: of_int_less_iff)
    then show ?thesis by simp
  qed
  then have "1 \<le> n - j * k" by simp
  then have "(1::rat) \<le> of_int (n - j * k)" by (simp only: of_int_1_le_iff)
  then have gap: "1 / of_int k \<le> x - of_int j"
    using kpos by (simp add: x_def field_simps)
  have nlt: "(of_int n :: rat) < of_int (2 ^ 53)" using n by (simp only: of_int_less_iff)
  have "x \<le> of_int n" using kpos k n by (simp add: x_def divide_le_eq mult_le_cancel_left1)
  also note nlt
  finally have "x < 2 powi 53" by simp
  with xpos have e53: "e < 53" unfolding e_def ax by (rule floor_log2_less)
  have "(of_int k :: rat) \<le> of_int (2 ^ 53)" using k by (simp only: of_int_le_iff)
  then have "(of_int k :: rat) \<le> 2 ^ 53" by simp
  then have "1 / 2 ^ 53 \<le> 1 / (of_int k :: rat)" using kpos by (simp add: frac_le)
  also have "\<dots> \<le> x" using n1 kpos by (simp add: x_def divide_le_cancel)
  finally have "2 powi (- 53) \<le> x" by (simp add: power_int_def inverse_eq_divide power_one_over)
  with xpos have elow: "- 53 \<le> e" unfolding e_def ax by (rule floor_log2_ge)
  have q: "max (e - 52) (- 1074) = e - 52" using elow by simp
  define s where "s = nat (52 - e)"
  define S :: int where "S = 2 ^ s"
  have Spos: "0 < S" by (simp add: S_def)
  have p: "(2::rat) powi (e - 52) = 1 / of_int S"
    using e53 by (simp add: power_int_def s_def S_def inverse_eq_divide power_one_over)
  have m: "x / 2 powi (e - 52) = x * of_int S" by (simp add: p)
  have lo: "2 powi e \<le> x" using xpos unfolding e_def ax by (rule floor_log2_lower)
  have "(2::rat) powi 53 = 2 powi (e + (53 - e))" by simp
  also have "\<dots> = 2 powi e * 2 powi (53 - e)" by (rule power_int_add) simp
  finally have split: "(2::rat) powi 53 = 2 powi e * 2 powi (53 - e)" .
  have "(2::rat) powi (53 - e) = 2 powi (1 + (52 - e))" by (simp add: algebra_simps)
  also have "\<dots> = 2 powi 1 * 2 powi (52 - e)" by (rule power_int_add) simp
  also have "\<dots> = 2 * of_int S" using e53 by (simp add: power_int_def s_def S_def)
  finally have twoS: "(2::rat) powi (53 - e) = 2 * of_int S" .
  have "of_int k * 2 powi e \<le> of_int k * x" using lo kpos by simp
  also have "\<dots> = of_int n" using kpos by (simp add: x_def)
  also have "\<dots> < 2 powi 53" using nlt by simp
  finally have "(of_int k :: rat) * 2 powi e < 2 powi e * (2 * of_int S)" unfolding split twoS .
  then have k2S: "(of_int k :: rat) < 2 * of_int S"
    by (simp add: mult.commute [of "of_int k"])
  define mm where "mm = x * of_int S"
  have SR: "(0::rat) < of_int S" using Spos by simp
  have lowm: "of_int (j * S) < mm" using jx SR by (simp add: mm_def)
  have highm: "mm < of_int ((j + 1) * S)" using xj SR by (simp add: mm_def)
  have fl_lo: "j * S \<le> \<lfloor>mm\<rfloor>" using lowm by (simp add: le_floor_iff less_imp_le del: of_int_mult)
  have fl_hi: "\<lfloor>mm\<rfloor> < (j + 1) * S" using highm by (simp add: floor_less_iff del: of_int_mult)
  have N_hi: "round_half_even mm \<le> (j + 1) * S"
    using round_half_even_le [of mm] fl_hi by linarith
  have N_lo: "j * S + 1 \<le> round_half_even mm"
  proof (cases "j * S + 1 \<le> \<lfloor>mm\<rfloor>")
    case True
    with round_half_even_ge_floor [of mm] show ?thesis by linarith
  next
    case False
    with fl_lo have fl: "\<lfloor>mm\<rfloor> = j * S" by linarith
    have "1 / 2 < of_int S / (of_int k :: rat)"
      using k2S kpos by (simp add: less_divide_eq)
    also have "\<dots> = (1 / of_int k) * of_int S" by simp
    also have "\<dots> \<le> (x - of_int j) * of_int S"
      using gap SR by (intro mult_right_mono) simp_all
    also have "\<dots> = mm - of_int \<lfloor>mm\<rfloor>" unfolding fl by (simp add: mm_def algebra_simps)
    finally have "round_half_even mm = \<lfloor>mm\<rfloor> + 1" by (rule round_half_even_up)
    with fl show ?thesis by simp
  qed
  define y :: rat where "y = of_int (round_half_even mm) * (1 / of_int S)"
  have xne: "x \<noteq> 0" using xpos by simp
  have rd: "round_double x = Fin y"
    unfolding round_double_def Let_def e_def [symmetric] q m p y_def mm_def
    using xne e53 by simp
  have "of_int (j * S + 1) \<le> (of_int (round_half_even mm) :: rat)"
    using N_lo by (simp only: of_int_le_iff)
  then have "of_int j * of_int S < (of_int (round_half_even mm) :: rat)" by simp
  then have ylo: "of_int j < y" using SR by (simp add: y_def less_divide_eq)
  have "(of_int (round_half_even mm) :: rat) \<le> of_int ((j + 1) * S)"
    using N_hi by (simp only: of_int_le_iff)
  then have yhi: "y \<le> of_int (j + 1)" using SR by (simp add: y_def divide_le_eq)
  have "\<lceil>y\<rceil> = j + 1" using ylo yhi by (simp add: ceiling_unique)
  with rd ceil show ?thesis unfolding x_def by simp
qed

text \<open>Arithmetic on integers is exact while the result stays within \<^verbatim>\<open>2^53\<close>.\<close>

lemma jadd_int:
  "\<bar>a + b\<bar> \<le> 2 ^ 53 \<Longrightarrow> jadd (Fin (of_int a)) (Fin (of_int b)) = Fin (of_int (a + b))"
  using round_double_int [of "a + b"] by simp

lemma jsub_int:
  "\<bar>a - b\<bar> \<le> 2 ^ 53 \<Longrightarrow> jsub (Fin (of_int a)) (Fin (of_int b)) = Fin (of_int (a - b))"
  using round_double_int [of "a - b"] by (simp add: jsub_def)

lemma jmul_int:
  "\<bar>a * b\<bar> \<le> 2 ^ 53 \<Longrightarrow> jmul (Fin (of_int a)) (Fin (of_int b)) = Fin (of_int (a * b))"
  using round_double_int [of "a * b"] by simp

lemma round_double_numeral:
  "round_double 0 = Fin 0"
  "round_double 1 = Fin 1"
  "numeral w \<le> (9007199254740992 :: int) \<Longrightarrow> round_double (numeral w) = Fin (numeral w)"
  "numeral w \<le> (9007199254740992 :: int) \<Longrightarrow> round_double (- numeral w) = Fin (- numeral w)"
  using round_double_int [of 0] round_double_int [of 1] round_double_int [of "numeral w"]
    round_double_int [of "- numeral w"]
  by simp_all

lemma ceiling_of_quotient:
  fixes n k :: int
  assumes "0 \<le> n" "n < 2 ^ 53" "1 \<le> k" "k \<le> 2 ^ 53"
  shows "jceil (jdiv (Fin (of_int n)) (Fin (of_int k))) = Fin (of_int \<lceil>of_int n / of_int k :: rat\<rceil>)"
proof -
  from round_double_quotient [OF assms] obtain y
    where y: "round_double (of_int n / of_int k) = Fin y" "\<lceil>y\<rceil> = \<lceil>of_int n / of_int k :: rat\<rceil>"
    by blast
  have "(of_int k :: rat) \<noteq> 0" using assms(3) by simp
  then show ?thesis using y by simp
qed





section \<open>Clamping of page and page size\<close>

lemma jmax_one_nonpositive: "jle n (Fin 0) \<Longrightarrow> jmax (Fin 1) n = Fin 1"
  by (cases n) (auto simp: jmax_def)

lemma jmax_one_one: "jmax (Fin 1) (Fin 1) = Fin 1"
  by (simp add: jmax_def)

text \<open>
  Claim C3. For every number \<open>n \<le> 0\<close> (every integer in particular, and
  \<^verbatim>\<open>-Infinity\<close>), \<^verbatim>\<open>page(n)\<close> leaves the paginator in the state \<^verbatim>\<open>page(1)\<close> leaves it
  in, \<^verbatim>\<open>perPage(n)\<close> in the state of \<^verbatim>\<open>perPage(1)\<close>, and \<^verbatim>\<open>paginate(n)\<close> has the
  outcome, the final state and the effect on the world of \<^verbatim>\<open>paginate(1)\<close>, its final
  state being that of \<^verbatim>\<open>perPage(1)\<close>. The setters are total functions into paginators:
  they have no way to raise, and an error of \<^verbatim>\<open>paginate(n)\<close> is one \<^verbatim>\<open>paginate(1)\<close>
  raises as well.
\<close>

theorem nonpositive_clamped_to_one:
  assumes "jle n (Fin 0)"
  shows "page n s = page (Fin 1) s \<and>
         perPage n s = perPage (Fin 1) s \<and>
         paginate (Some n) s w = paginate (Some (Fin 1)) s w \<and>
         fst (snd (paginate (Some n) s w)) = perPage (Fin 1) s"
proof -
  have m: "jmax (Fin 1) n = Fin 1"
    using assms by (rule jmax_one_nonpositive)
  show ?thesis
    by (simp add: page_def perPage_def paginate_def m jmax_one_one Let_def split: prod.splits)
qed

theorem nonpositive_clamped_to_one_witness:
  "jle (Fin (- 5)) (Fin 0) \<and>
   page (Fin (- 5)) (initial (DrizzleAdapter drizzle_db) relational_query None) =
     page (Fin 1) (initial (DrizzleAdapter drizzle_db) relational_query None) \<and>
   currentPage (page (Fin (- 5)) (initial (DrizzleAdapter drizzle_db) relational_query None)) = Fin 1 \<and>
   itemsPerPage (perPage (Fin (- 5)) (initial (DrizzleAdapter drizzle_db) relational_query None)) = Fin 1 \<and>
   paginate (Some (Fin (- 5))) (initial (DrizzleAdapter drizzle_db) relational_query None)
       (fixed_world (count_result (JStr ''95'')) []) =
     paginate (Some (Fin 1)) (initial (DrizzleAdapter drizzle_db) relational_query None)
       (fixed_world (count_result (JStr ''95'')) [])"
  using nonpositive_clamped_to_one
    [of "Fin (- 5)" "initial (DrizzleAdapter drizzle_db) relational_query None"
        "fixed_world (count_result (JStr ''95'')) []"]
  by (simp add: page_def perPage_def jmax_def)

section \<open>The sort column and the allow-list\<close>

text \<open>
  Claim C4. For every column \<open>c\<close> and direction \<open>d\<close>: when the allow-list is non-empty
  and does not contain \<open>c\<close>, \<^verbatim>\<open>orderBy(c, d)\<close> sets the sort column to \<^verbatim>\<open>"id"\<close>;
  when the allow-list is empty or contains \<open>c\<close>, to \<open>c\<close>. The direction becomes the
  upper-cased \<open>d\<close> (\<^verbatim>\<open>"ASC"\<close> for \<^verbatim>\<open>"asc"\<close> and for an omitted direction, \<^verbatim>\<open>"DESC"\<close>
  for \<^verbatim>\<open>"desc"\<close>). \<^verbatim>\<open>orderBy\<close> is a total function into paginators: it raises nothing.
\<close>

theorem orderBy_respects_allow_list:
  "sortBy (orderBy c d s) =
     Some (if allowedColumns s \<noteq> [] \<and> c \<notin> set (allowedColumns s) then ''id'' else c) \<and>
   sortDirection (orderBy c d s) = toUpperCase (case d of None \<Rightarrow> ''asc'' | Some x \<Rightarrow> x) \<and>
   sortDirection (orderBy c None s) = ''ASC'' \<and>
   sortDirection (orderBy c (Some ''asc'') s) = ''ASC'' \<and>
   sortDirection (orderBy c (Some ''desc'') s) = ''DESC''"
  by (simp add: orderBy_def toUpperCase_def lower_letters_def upper_letters_def)

theorem orderBy_respects_allow_list_witness:
  "sortBy (orderBy ''password'' (Some ''desc'')
     (allowColumns [''name'', ''email'']
        (initial (DrizzleAdapter drizzle_db) relational_query None))) = Some ''id'' \<and>
   sortBy (orderBy ''email'' (Some ''desc'')
     (allowColumns [''name'', ''email'']
        (initial (DrizzleAdapter drizzle_db) relational_query None))) = Some ''email'' \<and>
   sortBy (orderBy ''password'' (Some ''desc'')
     (initial (DrizzleAdapter drizzle_db) relational_query None)) = Some ''password'' \<and>
   sortDirection (orderBy ''password'' (Some ''desc'')
     (allowColumns [''name'', ''email'']
        (initial (DrizzleAdapter drizzle_db) relational_query None))) = ''DESC''"
  using orderBy_respects_allow_list
    [of "''password''" "Some ''desc''"
        "allowColumns [''name'', ''email''] (initial (DrizzleAdapter drizzle_db) relational_query None)"]
    orderBy_respects_allow_list
    [of "''email''" "Some ''desc''"
        "allowColumns [''name'', ''email''] (initial (DrizzleAdapter drizzle_db) relational_query None)"]
    orderBy_respects_allow_list
    [of "''password''" "Some ''desc''" "initial (DrizzleAdapter drizzle_db) relational_query None"]
  by (simp add: allowColumns_def initial_def toUpperCase_def lower_letters_def upper_letters_def)

lemma paginateSubqueryStyle_allowedColumns:
  "paginateSubqueryStyle (s\<lparr>allowedColumns := cols\<rparr>) offset w =
   paginateSubqueryStyle s offset w"
  by (simp add: paginateSubqueryStyle_def subquery_count_def subquery_data_def envelope_def
      cong: prod.case_cong sum.case_cong option.case_cong call_result.case_cong if_cong)

lemma paginateDirectQuery_allowedColumns:
  "paginateDirectQuery (s\<lparr>allowedColumns := cols\<rparr>) offset w =
   paginateDirectQuery s offset w"
  by (simp add: paginateDirectQuery_def direct_count_def direct_calls_def envelope_def
      cong: prod.case_cong sum.case_cong option.case_cong call_result.case_cong if_cong)

lemma paginate_allowedColumns:
  "paginate ov (s\<lparr>allowedColumns := cols\<rparr>) w =
     (fst (paginate ov s w), (fst (snd (paginate ov s w)))\<lparr>allowedColumns := cols\<rparr>,
      snd (snd (paginate ov s w)))"
proof (cases ov)
  case None
  then show ?thesis
    by (simp add: paginate_def Let_def paginateSubqueryStyle_allowedColumns
        paginateDirectQuery_allowedColumns split: prod.splits)
next
  case (Some n)
  have swap: "s\<lparr>allowedColumns := cols, itemsPerPage := jmax (Fin 1) n\<rparr> =
              s\<lparr>itemsPerPage := jmax (Fin 1) n, allowedColumns := cols\<rparr>"
    by simp
  from Some show ?thesis
    unfolding paginate_def Let_def
    by (simp add: paginateSubqueryStyle_allowedColumns paginateDirectQuery_allowedColumns swap
        split: prod.splits)
qed

text \<open>
  Claim C10. \<^verbatim>\<open>allowColumns(list)\<close> changes the field \<^verbatim>\<open>allowedColumns\<close> and nothing
  else: the sort column and direction stay as they were, so a column that \<^verbatim>\<open>orderBy\<close>
  accepted stays the sort column after a later \<^verbatim>\<open>allowColumns\<close>, whatever the new list
  holds. The list is read by \<^verbatim>\<open>orderBy\<close> only: the data statement, the window operations
  and the whole outcome of \<^verbatim>\<open>paginate\<close> are the same with and without the call.
\<close>

theorem allowColumns_keeps_sort:
  "allowColumns cols s = s\<lparr>allowedColumns := cols\<rparr> \<and>
   sortBy (allowColumns cols s) = sortBy s \<and>
   sortDirection (allowColumns cols s) = sortDirection s \<and>
   sortBy (allowColumns cols (orderBy c d s)) = sortBy (orderBy c d s) \<and>
   (allowedColumns s = [] \<or> c \<in> set (allowedColumns s) \<longrightarrow>
      sortBy (allowColumns cols (orderBy c d s)) = Some c) \<and>
   subquery_data (allowColumns cols s) offset = subquery_data s offset \<and>
   direct_calls (allowColumns cols s) offset = direct_calls s offset \<and>
   paginate ov (allowColumns cols s) w =
     (fst (paginate ov s w), allowColumns cols (fst (snd (paginate ov s w))),
      snd (snd (paginate ov s w)))"
  by (simp add: allowColumns_def orderBy_def subquery_data_def direct_calls_def
      paginate_allowedColumns cong: option.case_cong)

theorem allowColumns_keeps_sort_witness:
  "allowedColumns (initial (DrizzleAdapter drizzle_db) relational_query None) = [] \<and>
   ''name'' \<notin> set [''email''] \<and>
   sortBy (allowColumns [''email''] (orderBy ''name'' None
     (initial (DrizzleAdapter drizzle_db) relational_query None))) = Some ''name'' \<and>
   allowedColumns (allowColumns [''email''] (orderBy ''name'' None
     (initial (DrizzleAdapter drizzle_db) relational_query None))) = [''email'']"
  using allowColumns_keeps_sort
    [of "[''email'']" "initial (DrizzleAdapter drizzle_db) relational_query None" "''name''" None]
  by (simp add: initial_def allowColumns_def)

section \<open>The helper for fetched results\<close>












section \<open>The result envelope of paginate\<close>

lemmas model_defs =
  paginate_def paginateSubqueryStyle_def paginateDirectQuery_def execute_def issue_def
  subquery_count_def subquery_data_def direct_count_def direct_calls_def envelope_def
  totalItems_of_def apply_mapper_def hasRows_def isDrizzleQueryBuilder_def isPostgresDb_def
  optional_member_def nullish_def initial_def page_def perPage_def orderBy_def allowColumns_def
  map_with_def configure_def jmax_def jsub_def Let_def

lemmas index_ts_defs =
  paginate_index_ts_def index_ts_data_def sort_column_def initial_index_ts_def

lemmas example_defs =
  drizzle_db_def postgres_db_def relational_query_def select_query_def rows_result_def
  count_result_def fixed_world_def throwing_world_def id_rows_def

text \<open>
  What \<^verbatim>\<open>paginate\<close> does, in two steps: the state after the call is the state after the
  override of the page size, and the outcome is that of the strategy chosen for that state.
\<close>

lemma paginate_unfold:
  assumes "paginate ov s w = (r, s', w')"
  shows "s' = (case ov of Some n \<Rightarrow> perPage n s | None \<Rightarrow> s)"
    and "(if isDirectQuery s' \<and> isDrizzleQueryBuilder (baseQuery s')
         then paginateDirectQuery s' (jmul (jsub (currentPage s') (Fin 1)) (itemsPerPage s')) w
         else paginateSubqueryStyle s' (jmul (jsub (currentPage s') (Fin 1)) (itemsPerPage s')) w)
         = (r, w')"
proof -
  show "s' = (case ov of Some n \<Rightarrow> perPage n s | None \<Rightarrow> s)"
    using assms by (cases ov) (auto simp: paginate_def Let_def perPage_def split: prod.splits)
  show "(if isDirectQuery s' \<and> isDrizzleQueryBuilder (baseQuery s')
         then paginateDirectQuery s' (jmul (jsub (currentPage s') (Fin 1)) (itemsPerPage s')) w
         else paginateSubqueryStyle s' (jmul (jsub (currentPage s') (Fin 1)) (itemsPerPage s')) w)
         = (r, w')"
    using assms by (cases ov) (auto simp: paginate_def Let_def split: prod.splits if_splits)
qed

lemma subquery_envelope:
  assumes "paginateSubqueryStyle s offset w = (Inr res, w')"
  shows "\<exists>t rs. res = envelope s offset t rs"
  using assms
  by (auto simp: paginateSubqueryStyle_def split: prod.splits sum.splits call_result.splits)

lemma direct_envelope:
  assumes "paginateDirectQuery s offset w = (Inr res, w')"
  shows "\<exists>t rs. res = envelope s offset t rs"
  using assms
  by (auto simp: paginateDirectQuery_def
      split: prod.splits sum.splits call_result.splits if_splits)

lemma paginate_envelope:
  assumes "paginate ov s w = (Inr res, s', w')"
  shows "\<exists>t rs. res = envelope s' (jmul (jsub (currentPage s') (Fin 1)) (itemsPerPage s')) t rs"
proof (cases "isDirectQuery s' \<and> isDrizzleQueryBuilder (baseQuery s')")
  case True
  with paginate_unfold(2) [OF assms]
  have "paginateDirectQuery s' (jmul (jsub (currentPage s') (Fin 1)) (itemsPerPage s')) w =
        (Inr res, w')"
    by simp
  then show ?thesis by (rule direct_envelope)
next
  case False
  with paginate_unfold(2) [OF assms]
  have "paginateSubqueryStyle s' (jmul (jsub (currentPage s') (Fin 1)) (itemsPerPage s')) w =
        (Inr res, w')"
    by simp
  then show ?thesis by (rule subquery_envelope)
qed

lemma paginate_index_ts_envelope:
  assumes "paginate_index_ts ov s w = (Inr res, s', w')"
  shows "\<exists>t rs. res = envelope s' (jmul (jsub (currentPage s') (Fin 1)) (itemsPerPage s')) t rs"
  using assms
  apply (cases ov)
   apply (auto simp: paginate_index_ts_def Let_def
      split: prod.splits sum.splits call_result.splits)
   apply (intro exI, rule refl)+
  done

text \<open>The envelope is built the same way in both revisions.\<close>

lemma either_envelope:
  assumes "paginate ov s w = (Inr res, s', w') \<or> paginate_index_ts ov s w = (Inr res, s', w')"
  shows "\<exists>t rs. res = envelope s' (jmul (jsub (currentPage s') (Fin 1)) (itemsPerPage s')) t rs"
  using assms paginate_envelope paginate_index_ts_envelope by blast

text \<open>
  The arithmetic of the envelope on integers: exact as long as every intermediate value
  stays within \<^verbatim>\<open>2^53\<close> in magnitude.
\<close>

lemma offset_int:
  assumes "\<bar>p - 1\<bar> \<le> 2 ^ 53" "\<bar>(p - 1) * k\<bar> \<le> 2 ^ 53"
  shows "jmul (jsub (Fin (of_int p)) (Fin 1)) (Fin (of_int k)) = Fin (of_int ((p - 1) * k))"
proof -
  have "jsub (Fin (of_int p)) (Fin (of_int 1)) = Fin (of_int (p - 1))"
    using assms(1) by (rule jsub_int)
  then have s: "jsub (Fin (of_int p)) (Fin 1) = Fin (of_int (p - 1))" by simp
  show ?thesis unfolding s using assms(2) by (rule jmul_int)
qed

lemma window_length:
  assumes "\<bar>a + 1\<bar> \<le> 2 ^ 53" "\<bar>a + int n\<bar> \<le> 2 ^ 53" "int n \<le> 2 ^ 53"
  shows "jadd (jsub (jadd (Fin (of_int a)) (Fin (of_nat n))) (jadd (Fin (of_int a)) (Fin 1)))
           (Fin 1) = Fin (of_nat n)"
proof -
  have "jadd (Fin (of_int a)) (Fin (of_int 1)) = Fin (of_int (a + 1))"
    using assms(1) by (rule jadd_int)
  then have f: "jadd (Fin (of_int a)) (Fin 1) = Fin (of_int (a + 1))" by simp
  have "jadd (Fin (of_int a)) (Fin (of_int (int n))) = Fin (of_int (a + int n))"
    using assms(2) by (rule jadd_int)
  then have t: "jadd (Fin (of_int a)) (Fin (of_nat n)) = Fin (of_int (a + int n))" by simp
  have "\<bar>(a + int n) - (a + 1)\<bar> \<le> 2 ^ 53" using assms(3) by simp
  then have d: "jsub (Fin (of_int (a + int n))) (Fin (of_int (a + 1))) =
                Fin (of_int ((a + int n) - (a + 1)))" by (rule jsub_int)
  have "\<bar>((a + int n) - (a + 1)) + 1\<bar> \<le> 2 ^ 53" using assms(3) by simp
  then have "jadd (Fin (of_int ((a + int n) - (a + 1)))) (Fin (of_int 1)) =
             Fin (of_int (((a + int n) - (a + 1)) + 1))" by (rule jadd_int)
  then have "jadd (Fin (of_int ((a + int n) - (a + 1)))) (Fin 1) = Fin (of_nat n)" by simp
  then show ?thesis unfolding f t d .
qed

lemma empty_window:
  assumes "\<bar>a + 1\<bar> \<le> 2 ^ 53" "\<bar>a\<bar> \<le> 2 ^ 53"
  shows "jadd (Fin (of_int a)) (Fin (of_nat 0)) = jsub (jadd (Fin (of_int a)) (Fin 1)) (Fin 1)"
proof -
  have "jadd (Fin (of_int a)) (Fin (of_int 1)) = Fin (of_int (a + 1))"
    using assms(1) by (rule jadd_int)
  then have f: "jadd (Fin (of_int a)) (Fin 1) = Fin (of_int (a + 1))" by simp
  have "\<bar>a + 0\<bar> \<le> 2 ^ 53" using assms(2) by simp
  then have "jadd (Fin (of_int a)) (Fin (of_int 0)) = Fin (of_int (a + 0))" by (rule jadd_int)
  then have t: "jadd (Fin (of_int a)) (Fin (of_nat 0)) = Fin (of_int a)" by simp
  have "\<bar>(a + 1) - 1\<bar> \<le> 2 ^ 53" using assms(2) by simp
  then have "jsub (Fin (of_int (a + 1))) (Fin (of_int 1)) = Fin (of_int ((a + 1) - 1))"
    by (rule jsub_int)
  then have "jsub (Fin (of_int (a + 1))) (Fin 1) = Fin (of_int a)" by simp
  then show ?thesis unfolding f t by simp
qed

lemma last_page_of_nothing: "1 \<le> k \<Longrightarrow> jceil (jdiv (Fin 0) (Fin (of_int k))) = Fin 0"
  by (simp add: round_double_def)

text \<open>
  Claim C1 as stated fails beyond \<^verbatim>\<open>2^53\<close>. Page \<^verbatim>\<open>4503599627370497\<close> at two rows a
  page has the offset \<^verbatim>\<open>2^53\<close>, whose successor is not a number of the format: \<open>from\<close>
  is \<^verbatim>\<open>9007199254740992\<close> where \<open>(p-1)*k + 1\<close> is \<^verbatim>\<open>9007199254740993\<close>, and with the two
  rows the backend returns \<open>to - from + 1\<close> is 3.
\<close>

theorem paginate_metadata_counterexample:
  "currentPage (perPage (Fin 2) (page (Fin 4503599627370497)
      (initial (DrizzleAdapter drizzle_db) relational_query None))) = Fin 4503599627370497 \<and>
   itemsPerPage (perPage (Fin 2) (page (Fin 4503599627370497)
      (initial (DrizzleAdapter drizzle_db) relational_query None))) = Fin 2 \<and>
   fst (paginate None (perPage (Fin 2) (page (Fin 4503599627370497)
          (initial (DrizzleAdapter drizzle_db) relational_query None)))
          (fixed_world (count_result (JNum (Fin 9007199254740994))) (id_rows [1, 2]))) =
     Inr \<lparr>data = id_rows [1, 2], total = Fin 9007199254740994, res_perPage = Fin 2,
          res_currentPage = Fin 4503599627370497, lastPage = Fin 4503599627370497,
          res_from = Fin 9007199254740992, res_to = Fin 9007199254740994\<rparr> \<and>
   (4503599627370497 - 1) * 2 + 1 = (9007199254740993 :: int) \<and>
   Fin 9007199254740992 \<noteq> Fin 9007199254740993 \<and>
   length (id_rows [1, 2]) = 2 \<and>
   jadd (jsub (Fin 9007199254740994) (Fin 9007199254740992)) (Fin 1) = Fin 3 \<and>
   Fin 3 \<noteq> Fin 2"
  by code_simp

text \<open>
  Claim C1, amended. When \<^verbatim>\<open>paginate\<close> (of either revision) returns a result, with an
  integer effective page \<open>p \<ge> 1\<close> and an integer effective page size \<open>k \<ge> 1\<close> (the values
  the paginator holds after the call), the result reports \<open>p\<close> and \<open>k\<close> themselves, and
  \<open>lastPage\<close> is \<^verbatim>\<open>Math.ceil(total / k)\<close>: for an integer total from 0 to below
  \<^verbatim>\<open>2^53\<close> and \<open>k\<close> up to \<^verbatim>\<open>2^53\<close> that is the ceiling of the exact quotient, and a total
  of 0 gives a last page of 0. \<open>from\<close> is \<^verbatim>\<open>(p-1)*k + 1\<close> as the arithmetic of the
  language computes it, which is that integer while the offset \<open>(p-1)*k\<close> is below
  \<^verbatim>\<open>2^53\<close>. When rows are returned and \<open>(p-1)*k + data.length\<close> is at most
  \<^verbatim>\<open>2^53\<close>, \<open>to - from + 1\<close> is the number of rows.
\<close>

theorem paginate_metadata:
  assumes "paginate ov s w = (Inr res, s', w') \<or>
           paginate_index_ts ov s w = (Inr res, s', w')"
      and "currentPage s' = Fin (of_int p)" and "1 \<le> p"
      and "itemsPerPage s' = Fin (of_int k)" and "1 \<le> k"
  shows "res_currentPage res = Fin (of_int p) \<and> res_perPage res = Fin (of_int k) \<and>
         lastPage res = jceil (jdiv (total res) (Fin (of_int k))) \<and>
         (\<forall>t. total res = Fin (of_int t) \<and> 0 \<le> t \<and> t < 2 ^ 53 \<and> k \<le> 2 ^ 53 \<longrightarrow>
              lastPage res = Fin (of_int \<lceil>of_int t / of_int k :: rat\<rceil>)) \<and>
         (total res = Fin 0 \<longrightarrow> lastPage res = Fin 0) \<and>
         res_from res = jadd (jmul (jsub (Fin (of_int p)) (Fin 1)) (Fin (of_int k))) (Fin 1) \<and>
         ((p - 1) * k < 2 ^ 53 \<longrightarrow> res_from res = Fin (of_int ((p - 1) * k + 1))) \<and>
         (data res \<noteq> [] \<and> (p - 1) * k + int (length (data res)) \<le> 2 ^ 53 \<longrightarrow>
            jadd (jsub (res_to res) (res_from res)) (Fin 1) = Fin (of_nat (length (data res))))"
proof -
  define a where "a = (p - 1) * k"
  from either_envelope [OF assms(1)] obtain t rs
    where res: "res = envelope s' (jmul (jsub (Fin (of_int p)) (Fin 1)) (Fin (of_int k))) t rs"
    unfolding assms(2) assms(4) by blast
  have a0: "0 \<le> a" using assms(3) assms(5) by (simp add: a_def)
  have "(p - 1) * 1 \<le> (p - 1) * k" using assms(3) assms(5) by (intro mult_left_mono) simp_all
  then have pa: "p - 1 \<le> a" by (simp add: a_def)
  have off: "jmul (jsub (Fin (of_int p)) (Fin 1)) (Fin (of_int k)) = Fin (of_int a)"
    if "a \<le> 2 ^ 53"
    unfolding a_def using that pa a0 assms(3) by (intro offset_int) (simp_all add: a_def)
  have fields: "res_currentPage res = Fin (of_int p)" "res_perPage res = Fin (of_int k)"
      "lastPage res = jceil (jdiv (total res) (Fin (of_int k)))"
      "res_from res = jadd (jmul (jsub (Fin (of_int p)) (Fin 1)) (Fin (of_int k))) (Fin 1)"
    by (simp_all add: res envelope_def assms(2) assms(4))
  have last: "lastPage res = Fin (of_int \<lceil>of_int t' / of_int k :: rat\<rceil>)"
    if "total res = Fin (of_int t')" "0 \<le> t'" "t' < 2 ^ 53" "k \<le> 2 ^ 53" for t'
    unfolding fields(3) that(1) using that(2) that(3) assms(5) that(4)
    by (rule ceiling_of_quotient)
  have zero: "lastPage res = Fin 0" if "total res = Fin 0"
    unfolding fields(3) that using assms(5) by (rule last_page_of_nothing)
  have "from": "res_from res = Fin (of_int (a + 1))" if "a < 2 ^ 53"
  proof -
    have "\<bar>a + 1\<bar> \<le> 2 ^ 53" using that a0 by simp
    then have "jadd (Fin (of_int a)) (Fin (of_int 1)) = Fin (of_int (a + 1))" by (rule jadd_int)
    then have "jadd (Fin (of_int a)) (Fin 1) = Fin (of_int (a + 1))" by simp
    moreover have "res_from res = jadd (Fin (of_int a)) (Fin 1)"
      using off that by (simp add: res envelope_def)
    ultimately show ?thesis by simp
  qed
  have len: "jadd (jsub (res_to res) (res_from res)) (Fin 1) = Fin (of_nat (length (data res)))"
    if "data res \<noteq> []" "a + int (length (data res)) \<le> 2 ^ 53"
  proof -
    have d: "data res = rs" by (simp add: res envelope_def)
    have n: "1 \<le> int (length rs)" using that(1) d by (cases rs) simp_all
    have b: "a + int (length rs) \<le> 2 ^ 53" using that(2) d by simp
    have o: "jmul (jsub (Fin (of_int p)) (Fin 1)) (Fin (of_int k)) = Fin (of_int a)"
      using b n by (intro off) linarith
    have "\<bar>a + 1\<bar> \<le> 2 ^ 53" using a0 b n by linarith
    moreover have "\<bar>a + int (length rs)\<bar> \<le> 2 ^ 53" using a0 b by linarith
    moreover have "int (length rs) \<le> 2 ^ 53" using a0 b by linarith
    ultimately have "jadd (jsub (jadd (Fin (of_int a)) (Fin (of_nat (length rs))))
        (jadd (Fin (of_int a)) (Fin 1))) (Fin 1) = Fin (of_nat (length rs))"
      by (rule window_length)
    then show ?thesis by (simp add: res envelope_def o)
  qed
  show ?thesis
    using fields last zero "from" len unfolding a_def by blast
qed

text \<open>
  The scenario of the specification: 95 rows in all, page size 10, page 10; the backend
  returns the five rows 91 to 95.
\<close>

theorem paginate_metadata_witness:
  "(1::int) \<le> 10 \<and>
   currentPage (page (Fin 10) (initial (DrizzleAdapter drizzle_db) relational_query None)) = Fin 10 \<and>
   itemsPerPage (page (Fin 10) (initial (DrizzleAdapter drizzle_db) relational_query None)) = Fin 10 \<and>
   fst (paginate None (page (Fin 10) (initial (DrizzleAdapter drizzle_db) relational_query None))
          (fixed_world (count_result (JStr ''95'')) (id_rows [91, 92, 93, 94, 95]))) =
     Inr \<lparr>data = id_rows [91, 92, 93, 94, 95], total = Fin 95, res_perPage = Fin 10,
          res_currentPage = Fin 10, lastPage = Fin 10, res_from = Fin 91, res_to = Fin 95\<rparr> \<and>
   jadd (jsub (Fin 95) (Fin 91)) (Fin 1) = Fin (of_nat (length (id_rows [91, 92, 93, 94, 95])))"
proof -
  let ?s = "page (Fin 10) (initial (DrizzleAdapter drizzle_db) relational_query None)"
  let ?w = "fixed_world (count_result (JStr ''95'')) (id_rows [91, 92, 93, 94, 95])"
  let ?res = "\<lparr>data = id_rows [91, 92, 93, 94, 95], total = Fin 95, res_perPage = Fin 10,
          res_currentPage = Fin 10, lastPage = Fin 10, res_from = Fin 91, res_to = Fin 95\<rparr>"
  have out: "fst (paginate None ?s ?w) = Inr ?res"
    by code_simp
  have st: "fst (snd (paginate None ?s ?w)) = ?s"
    by (simp add: paginate_def Let_def split: prod.splits)
  have run: "paginate None ?s ?w = (Inr ?res, ?s, snd (snd (paginate None ?s ?w))) \<or>
             paginate_index_ts None ?s ?w = (Inr ?res, ?s, snd (snd (paginate None ?s ?w)))"
    using out st by (simp add: prod_eq_iff)
  have p: "currentPage ?s = Fin (of_int 10)" and k: "itemsPerPage ?s = Fin (of_int 10)"
    by (simp_all add: page_def initial_def jmax_def)
  have one: "(1::int) \<le> 10"
    by simp
  have rows: "data ?res \<noteq> [] \<and> (10 - 1) * 10 + int (length (data ?res)) \<le> 2 ^ 53"
    by (simp add: id_rows_def)
  from paginate_metadata [OF run p one k one] rows
  have "jadd (jsub (res_to ?res) (res_from ?res)) (Fin 1) = Fin (of_nat (length (data ?res)))"
    by blast
  with out p k show ?thesis
    by simp
qed

text \<open>
  Claim C8 as stated fails in two ways. The helper accepts any number as the page:
  with \<^verbatim>\<open>NaN\<close> it returns no rows and \<open>from = to = NaN\<close>, so \<open>to - from + 1\<close> is
  \<^verbatim>\<open>NaN\<close>, not 0. And beyond \<^verbatim>\<open>2^53\<close> the sums round: page \<^verbatim>\<open>9007199254740994\<close> at one
  row a page, empty, has \<open>from = to = 9007199254740992\<close> for the helper and for
  \<^verbatim>\<open>paginate\<close>, so \<open>to - from + 1\<close> is 1, and \<open>to\<close> is \<open>from\<close>, not \<open>from - 1\<close>.
\<close>

theorem window_length_counterexample:
  "withSqlPagination \<lparr>rows = [0 ..< 25 :: nat], rowCount = Some (Fin 25)\<rparr> (Fin 10) NaN =
     \<lparr>data = [], total = Fin 25, res_perPage = Fin 10, res_currentPage = NaN,
      lastPage = Fin 3, res_from = NaN, res_to = NaN\<rparr> \<and>
   jadd (jsub NaN NaN) (Fin 1) = NaN \<and> NaN \<noteq> Fin 0 \<and>
   withSqlPagination \<lparr>rows = [0 ..< 25 :: nat], rowCount = Some (Fin 25)\<rparr>
       (Fin 1) (Fin 9007199254740994) =
     \<lparr>data = [], total = Fin 25, res_perPage = Fin 1, res_currentPage = Fin 9007199254740994,
      lastPage = Fin 25, res_from = Fin 9007199254740992, res_to = Fin 9007199254740992\<rparr> \<and>
   fst (paginate None (perPage (Fin 1) (page (Fin 9007199254740994)
          (initial (DrizzleAdapter drizzle_db) relational_query None)))
          (fixed_world (count_result (JStr ''25'')) [])) =
     Inr \<lparr>data = [], total = Fin 25, res_perPage = Fin 1, res_currentPage = Fin 9007199254740994,
      lastPage = Fin 25, res_from = Fin 9007199254740992, res_to = Fin 9007199254740992\<rparr> \<and>
   jadd (jsub (Fin 9007199254740992) (Fin 9007199254740992)) (Fin 1) = Fin 1 \<and>
   Fin 1 \<noteq> Fin 0 \<and>
   jsub (Fin 9007199254740992) (Fin 1) = Fin 9007199254740991 \<and>
   Fin 9007199254740992 \<noteq> Fin 9007199254740991"
  by code_simp

text \<open>
  Claim C8, amended. For an integer page \<open>p\<close> and an integer page size \<open>k\<close>, of any sign,
  with \<open>p - 1\<close> within \<^verbatim>\<open>2^53\<close> and \<open>|(p-1)*k| + data.length\<close> below \<^verbatim>\<open>2^53\<close>, the envelope
  satisfies \<open>to - from + 1 = data.length\<close> whether or not there are rows, for \<^verbatim>\<open>paginate\<close>
  (of either revision) and for \<^verbatim>\<open>withSqlPagination\<close> alike; on an empty page
  \<open>to = from - 1\<close>.
\<close>

theorem window_length_within_exact_range:
  "((paginate ov s w = (Inr res, s', w') \<or> paginate_index_ts ov s w = (Inr res, s', w')) \<and>
    currentPage s' = Fin (of_int p) \<and> itemsPerPage s' = Fin (of_int k) \<and>
    \<bar>p - 1\<bar> \<le> 2 ^ 53 \<and> \<bar>(p - 1) * k\<bar> + int (length (data res)) < 2 ^ 53 \<longrightarrow>
      jadd (jsub (res_to res) (res_from res)) (Fin 1) = Fin (of_nat (length (data res))) \<and>
      (data res = [] \<longrightarrow> res_to res = jsub (res_from res) (Fin 1))) \<and>
   (\<bar>p' - 1\<bar> \<le> 2 ^ 53 \<and>
    \<bar>(p' - 1) * k'\<bar> +
      int (length (data (withSqlPagination qr (Fin (of_int k')) (Fin (of_int p'))))) < 2 ^ 53 \<longrightarrow>
      jadd (jsub (res_to (withSqlPagination qr (Fin (of_int k')) (Fin (of_int p'))))
                 (res_from (withSqlPagination qr (Fin (of_int k')) (Fin (of_int p'))))) (Fin 1) =
        Fin (of_nat (length (data (withSqlPagination qr (Fin (of_int k')) (Fin (of_int p')))))) \<and>
      (data (withSqlPagination qr (Fin (of_int k')) (Fin (of_int p'))) = [] \<longrightarrow>
         res_to (withSqlPagination qr (Fin (of_int k')) (Fin (of_int p'))) =
           jsub (res_from (withSqlPagination qr (Fin (of_int k')) (Fin (of_int p')))) (Fin 1)))"
proof -
  have window: "jadd (jsub (jadd off (Fin (of_nat n))) (jadd off (Fin 1))) (Fin 1) = Fin (of_nat n) \<and>
      (n = 0 \<longrightarrow> jadd off (Fin (of_nat n)) = jsub (jadd off (Fin 1)) (Fin 1))"
    if off: "off = jmul (jsub (Fin (of_int q)) (Fin 1)) (Fin (of_int j))"
      and q: "\<bar>q - 1\<bar> \<le> 2 ^ 53" and b: "\<bar>(q - 1) * j\<bar> + int n < 2 ^ 53"
    for off q j and n :: nat
  proof -
    have "\<bar>(q - 1) * j\<bar> \<le> 2 ^ 53" using b by linarith
    with q have o: "off = Fin (of_int ((q - 1) * j))" unfolding off by (rule offset_int)
    have 1: "\<bar>(q - 1) * j + 1\<bar> \<le> 2 ^ 53" using b by linarith
    have 2: "\<bar>(q - 1) * j + int n\<bar> \<le> 2 ^ 53" using b by linarith
    have 3: "int n \<le> 2 ^ 53" using b by linarith
    have 4: "\<bar>(q - 1) * j\<bar> \<le> 2 ^ 53" using b by linarith
    from window_length [OF 1 2 3] empty_window [OF 1 4] show ?thesis
      unfolding o by simp
  qed
  have a: "jadd (jsub (res_to res) (res_from res)) (Fin 1) = Fin (of_nat (length (data res))) \<and>
      (data res = [] \<longrightarrow> res_to res = jsub (res_from res) (Fin 1))"
    if h: "paginate ov s w = (Inr res, s', w') \<or> paginate_index_ts ov s w = (Inr res, s', w')"
      "currentPage s' = Fin (of_int p)" "itemsPerPage s' = Fin (of_int k)"
      "\<bar>p - 1\<bar> \<le> 2 ^ 53" "\<bar>(p - 1) * k\<bar> + int (length (data res)) < 2 ^ 53"
  proof -
    from either_envelope [OF h(1)] obtain t rs
      where res: "res = envelope s' (jmul (jsub (Fin (of_int p)) (Fin 1)) (Fin (of_int k))) t rs"
      unfolding h(2) h(3) by blast
    have d: "data res = rs" by (simp add: res envelope_def)
    from window [OF refl h(4), of k "length rs"] h(5) d show ?thesis
      by (simp add: res envelope_def)
  qed
  have b: "jadd (jsub (res_to (withSqlPagination qr (Fin (of_int k')) (Fin (of_int p'))))
                 (res_from (withSqlPagination qr (Fin (of_int k')) (Fin (of_int p'))))) (Fin 1) =
        Fin (of_nat (length (data (withSqlPagination qr (Fin (of_int k')) (Fin (of_int p')))))) \<and>
      (data (withSqlPagination qr (Fin (of_int k')) (Fin (of_int p'))) = [] \<longrightarrow>
         res_to (withSqlPagination qr (Fin (of_int k')) (Fin (of_int p'))) =
           jsub (res_from (withSqlPagination qr (Fin (of_int k')) (Fin (of_int p')))) (Fin 1))"
    if h: "\<bar>p' - 1\<bar> \<le> 2 ^ 53"
      "\<bar>(p' - 1) * k'\<bar> +
        int (length (data (withSqlPagination qr (Fin (of_int k')) (Fin (of_int p'))))) < 2 ^ 53"
  proof -
    define off where "off = jmul (jsub (Fin (of_int p')) (Fin 1)) (Fin (of_int k'))"
    define rs where "rs = slice (rows qr) off (jadd off (Fin (of_int k')))"
    have d: "data (withSqlPagination qr (Fin (of_int k')) (Fin (of_int p'))) = rs"
      and f: "res_from (withSqlPagination qr (Fin (of_int k')) (Fin (of_int p'))) = jadd off (Fin 1)"
      and t: "res_to (withSqlPagination qr (Fin (of_int k')) (Fin (of_int p'))) =
              jadd off (Fin (of_nat (length rs)))"
      by (simp_all add: withSqlPagination_def Let_def off_def rs_def)
    from window [OF off_def h(1), of "length rs"] h(2) show ?thesis
      unfolding d f t by simp
  qed
  from a b show ?thesis by blast
qed

text \<open>Page 11 of 95 rows is empty: \<open>from = 101\<close> and \<open>to = 100\<close>; page 4 of 25 rows likewise.\<close>

theorem window_length_within_exact_range_witness:
  "fst (paginate None (page (Fin 11) (initial (DrizzleAdapter drizzle_db) relational_query None))
          (fixed_world (count_result (JStr ''95'')) [])) =
     Inr \<lparr>data = [], total = Fin 95, res_perPage = Fin 10,
          res_currentPage = Fin 11, lastPage = Fin 10, res_from = Fin 101, res_to = Fin 100\<rparr> \<and>
   jadd (jsub (Fin 100) (Fin 101)) (Fin 1) = Fin 0 \<and>
   data (withSqlPagination \<lparr>rows = [0 ..< 25 :: nat], rowCount = Some (Fin 25)\<rparr> (Fin 10) (Fin 4)) = [] \<and>
   res_to (withSqlPagination \<lparr>rows = [0 ..< 25 :: nat], rowCount = Some (Fin 25)\<rparr> (Fin 10) (Fin 4)) =
     jsub (res_from (withSqlPagination \<lparr>rows = [0 ..< 25 :: nat], rowCount = Some (Fin 25)\<rparr>
       (Fin 10) (Fin 4))) (Fin 1)"
proof -
  let ?s = "page (Fin 11) (initial (DrizzleAdapter drizzle_db) relational_query None)"
  let ?w = "fixed_world (count_result (JStr ''95'')) []"
  let ?res = "\<lparr>data = ([] :: jsval list), total = Fin 95, res_perPage = Fin 10,
          res_currentPage = Fin 11, lastPage = Fin 10, res_from = Fin 101, res_to = Fin 100\<rparr>"
  let ?qr = "\<lparr>rows = [0 ..< 25 :: nat], rowCount = Some (Fin 25)\<rparr>"
  have out: "fst (paginate None ?s ?w) = Inr ?res"
    by code_simp
  have st: "fst (snd (paginate None ?s ?w)) = ?s"
    by (simp add: paginate_def Let_def split: prod.splits)
  have run: "paginate None ?s ?w = (Inr ?res, ?s, snd (snd (paginate None ?s ?w))) \<or>
             paginate_index_ts None ?s ?w = (Inr ?res, ?s, snd (snd (paginate None ?s ?w)))"
    using out st by (simp add: prod_eq_iff)
  have p: "currentPage ?s = Fin (of_int 11)" and k: "itemsPerPage ?s = Fin (of_int 10)"
    by (simp_all add: page_def initial_def jmax_def)
  have empty: "data (withSqlPagination ?qr (Fin (of_int 10)) (Fin (of_int 4))) = []"
    by code_simp
  have first_premise:
    "(paginate None ?s ?w = (Inr ?res, ?s, snd (snd (paginate None ?s ?w))) \<or>
      paginate_index_ts None ?s ?w = (Inr ?res, ?s, snd (snd (paginate None ?s ?w)))) \<and>
     currentPage ?s = Fin (of_int 11) \<and> itemsPerPage ?s = Fin (of_int 10) \<and>
     \<bar>(11::int) - 1\<bar> \<le> 2 ^ 53 \<and> \<bar>((11::int) - 1) * 10\<bar> + int (length (data ?res)) < 2 ^ 53"
    using run p k by simp
  have second_premise:
    "\<bar>(4::int) - 1\<bar> \<le> 2 ^ 53 \<and>
     \<bar>((4::int) - 1) * 10\<bar> +
       int (length (data (withSqlPagination ?qr (Fin (of_int 10)) (Fin (of_int 4))))) < 2 ^ 53"
    unfolding empty by simp
  note both = window_length_within_exact_range
         [of None ?s ?w ?res ?s "snd (snd (paginate None ?s ?w))" 11 10 4 10 ?qr]
  have first: "jadd (jsub (res_to ?res) (res_from ?res)) (Fin 1) = Fin (of_nat (length (data ?res)))"
    using both [THEN conjunct1, THEN mp, OF first_premise] by (rule conjunct1)
  have "data (withSqlPagination ?qr (Fin (of_int 10)) (Fin (of_int 4))) = [] \<longrightarrow>
     res_to (withSqlPagination ?qr (Fin (of_int 10)) (Fin (of_int 4))) =
     jsub (res_from (withSqlPagination ?qr (Fin (of_int 10)) (Fin (of_int 4)))) (Fin 1)"
    using both [THEN conjunct2, THEN mp, OF second_premise] by (rule conjunct2)
  then have second: "res_to (withSqlPagination ?qr (Fin (of_int 10)) (Fin (of_int 4))) =
     jsub (res_from (withSqlPagination ?qr (Fin (of_int 10)) (Fin (of_int 4)))) (Fin 1)"
    using empty by (rule mp)
  from out first second empty show ?thesis
    by simp
qed

section \<open>Ordering only on request\<close>

lemma setter_keeps_sortBy:
  "\<not> is_OrderBy c \<Longrightarrow> sortBy (apply_setter c s) = sortBy s"
  by (cases c) (simp_all add: page_def perPage_def allowColumns_def map_with_def)

lemma configure_keeps_sortBy:
  "\<forall>c \<in> set cs. \<not> is_OrderBy c \<Longrightarrow> sortBy (configure cs s) = sortBy s"
  unfolding configure_def
  by (induction cs arbitrary: s) (simp_all add: setter_keeps_sortBy)

lemma constructor_sortBy:
  "DrizzlePaginator db query cc w = (Inr s, w') \<Longrightarrow> sortBy s = None"
  by (auto simp: DrizzlePaginator_def initial_def split: if_splits)

text \<open>An earlier \<^verbatim>\<open>paginate\<close> in the history acts on the state as \<^verbatim>\<open>perPage\<close> does.\<close>

lemma paginate_sortBy:
  "paginate ov s w = (r, s', w') \<Longrightarrow> sortBy s' = sortBy s"
  by (cases ov) (auto simp: paginate_def Let_def split: prod.splits)

lemma subquery_data_unsorted:
  "sortBy s = None \<Longrightarrow> \<not> list_ex chunk_orders (subquery_data s offset)"
  by (simp add: subquery_data_def mentions_order_by_def toUpperCase_def lower_letters_def
      upper_letters_def sublist_code prefix_code)

lemma subquery_data_sorted:
  "sortBy s = Some c \<Longrightarrow> list_ex chunk_orders (subquery_data s offset)"
  by (simp add: subquery_data_def mentions_order_by_def toUpperCase_def lower_letters_def
      upper_letters_def sublist_code prefix_code)

lemma direct_calls_unsorted:
  "sortBy s = None \<Longrightarrow> \<not> list_ex is_OrderByCall (direct_calls s offset)"
  by (simp add: direct_calls_def)

lemma direct_calls_sorted:
  "sortBy s = Some c \<Longrightarrow> list_ex is_OrderByCall (direct_calls s offset)"
  by (simp add: direct_calls_def)

lemma adapter_request_orders:
  "request_orders (adapter_request a q) = list_ex chunk_orders q"
  by (cases a) simp_all

text \<open>
  The requests of one call: the count first, then the data. A call of the adapter that
  throws is the last one.
\<close>

lemma execute_issued:
  "execute a q w = (r, w') \<Longrightarrow> issued w' = issued w @ [adapter_request a q]"
  by (cases a) (auto simp: execute_def Let_def split: sum.splits if_splits)

lemma subquery_issued:
  assumes "paginateSubqueryStyle s offset w = (r, w')"
  shows "issued w' = issued w @ [adapter_request (dbAdapter s) (subquery_count s)] \<or>
         issued w' = issued w @ [adapter_request (dbAdapter s) (subquery_count s),
                                 adapter_request (dbAdapter s) (subquery_data s offset)]"
  using assms
  by (auto simp: paginateSubqueryStyle_def
      split: prod.splits sum.splits call_result.splits dest!: execute_issued)

lemma direct_issued:
  assumes "paginateDirectQuery s offset w = (r, w')"
  shows "issued w' = issued w \<or>
         issued w' = issued w @ [adapter_request (dbAdapter s) (direct_count s)] \<or>
         issued w' = issued w @ [adapter_request (dbAdapter s) (direct_count s),
                                 AwaitBuilder (baseQuery s) (direct_calls s offset)]"
  using assms
  by (auto simp: paginateDirectQuery_def issue_def
      split: prod.splits sum.splits call_result.splits if_splits dest!: execute_issued)

lemma paginate_index_ts_issued:
  assumes "paginate_index_ts ov s w = (r, s', w')"
  shows "issued w' = issued w @ [adapter_request (dbAdapter s') (subquery_count s')] \<or>
         issued w' = issued w @
           [adapter_request (dbAdapter s') (subquery_count s'),
            adapter_request (dbAdapter s')
              (index_ts_data s' (jmul (jsub (currentPage s') (Fin 1)) (itemsPerPage s')))]"
  using assms
  by (cases ov)
     (auto simp: paginate_index_ts_def Let_def
       split: prod.splits sum.splits call_result.splits dest!: execute_issued)

text \<open>
  The current revision (\<^verbatim>\<open>src/unnamed/part_000\<close>). Take a paginator as its constructor
  returns it, apply any sequence of setters none of which is \<^verbatim>\<open>orderBy\<close>, and call
  \<^verbatim>\<open>paginate\<close>. Then no sort column is set; the call issues nothing (it failed before
  reaching the backend), or the count request alone (the call of the adapter threw), or
  a count request and a data request, and the data request carries no ordering: in the
  subquery style no text of the statement contains \<^verbatim>\<open>ORDER BY\<close>, in the direct style
  the chain of window operations has no \<^verbatim>\<open>orderBy\<close> call.
\<close>

lemma current_revision_no_ordering:
  assumes fresh: "DrizzlePaginator db query cc w0 = (Inr s0, w0')"
      and never: "\<forall>c \<in> set cs. \<not> is_OrderBy c"
      and run: "paginate ov (configure cs s0) w = (r, s', w')"
  shows "sortBy s' = None \<and>
         (issued w' = issued w \<or>
          issued w' = issued w @ [adapter_request (dbAdapter s') (subquery_count s')] \<or>
          issued w' = issued w @ [adapter_request (dbAdapter s') (direct_count s')] \<or>
          (\<exists>c d. issued w' = issued w @ [c, d] \<and> \<not> request_orders d)) \<and>
         \<not> list_ex chunk_orders (subquery_data s' x) \<and>
         \<not> list_ex is_OrderByCall (direct_calls s' x)"
proof -
  have none: "sortBy s' = None"
    using paginate_sortBy [OF run] configure_keeps_sortBy [OF never] constructor_sortBy [OF fresh]
    by simp
  let ?o = "jmul (jsub (currentPage s') (Fin 1)) (itemsPerPage s')"
  have sent: "issued w' = issued w \<or>
          issued w' = issued w @ [adapter_request (dbAdapter s') (subquery_count s')] \<or>
          issued w' = issued w @ [adapter_request (dbAdapter s') (direct_count s')] \<or>
          (\<exists>c d. issued w' = issued w @ [c, d] \<and> \<not> request_orders d)"
  proof (cases "isDirectQuery s' \<and> isDrizzleQueryBuilder (baseQuery s')")
    case True
    with paginate_unfold(2) [OF run] have "paginateDirectQuery s' ?o w = (r, w')"
      by simp
    from direct_issued [OF this] direct_calls_unsorted [OF none, of ?o]
    show ?thesis by auto
  next
    case False
    with paginate_unfold(2) [OF run] have "paginateSubqueryStyle s' ?o w = (r, w')"
      by simp
    from subquery_issued [OF this] subquery_data_unsorted [OF none, of ?o]
    show ?thesis by (auto simp: adapter_request_orders)
  qed
  from none sent subquery_data_unsorted [OF none] direct_calls_unsorted [OF none]
  show ?thesis by blast
qed

text \<open>
  A relational query behind a Drizzle handle, after \<^verbatim>\<open>page(2).perPage(5)\<close> and an
  allow-list, in the current revision: the two statements sent, the second one without
  \<^verbatim>\<open>ORDER BY\<close>.
\<close>

lemma current_revision_example:
  "DrizzlePaginator drizzle_db relational_query None (fixed_world (count_result (JStr ''12'')) []) =
     (Inr (initial (DrizzleAdapter drizzle_db) relational_query None),
      fixed_world (count_result (JStr ''12'')) []) \<and>
   issued (snd (snd (paginate None
      (configure [Page (Fin 2), PerPage (Fin 5), AllowColumns [''name'']]
         (initial (DrizzleAdapter drizzle_db) relational_query None))
      (fixed_world (count_result (JStr ''12'')) [])))) =
     [DbExecute [Text ''SELECT COUNT('', Raw ''*'', Text '') as count FROM ('',
                 Query relational_query, Text '') as subquery''],
      DbExecute [Text ''\<newline>        SELECT * FROM ('', Query relational_query,
                 Text '') as subquery\<newline>        LIMIT '', Param (Fin 5),
                 Text '' OFFSET '', Param (Fin 5), Text ''\<newline>      '']]"
proof -
  have "DrizzlePaginator drizzle_db relational_query None (fixed_world (count_result (JStr ''12'')) []) =
     (Inr (initial (DrizzleAdapter drizzle_db) relational_query None),
      fixed_world (count_result (JStr ''12'')) [])"
    by (simp add: DrizzlePaginator_def nullish_def drizzle_db_def)
  moreover have "issued (snd (snd (paginate None
      (configure [Page (Fin 2), PerPage (Fin 5), AllowColumns [''name'']]
         (initial (DrizzleAdapter drizzle_db) relational_query None))
      (fixed_world (count_result (JStr ''12'')) [])))) =
     [DbExecute [Text ''SELECT COUNT('', Raw ''*'', Text '') as count FROM ('',
                 Query relational_query, Text '') as subquery''],
      DbExecute [Text ''\<newline>        SELECT * FROM ('', Query relational_query,
                 Text '') as subquery\<newline>        LIMIT '', Param (Fin 5),
                 Text '' OFFSET '', Param (Fin 5), Text ''\<newline>      '']]"
    by code_simp
  ultimately show ?thesis ..
qed

text \<open>
  When the handle's \<^verbatim>\<open>execute\<close> throws at the call, \<^verbatim>\<open>paginate\<close> ends with that error
  after the count request: the data request is never issued.
\<close>

lemma synchronous_throw_example:
  "fst (paginate None (initial (DrizzleAdapter drizzle_db) relational_query None)
      throwing_world) = Inl (Rejected ''connection refused'') \<and>
   issued (snd (snd (paginate None (initial (DrizzleAdapter drizzle_db) relational_query None)
      throwing_world))) =
     [DbExecute [Text ''SELECT COUNT('', Raw ''*'', Text '') as count FROM ('',
                 Query relational_query, Text '') as subquery'']]"
  by code_simp

text \<open>
  For contrast: once a sort column is set, the data statement of the subquery style has
  the clause and the chain of the direct style has the call.
\<close>

lemma sort_column_orders:
  "sortBy s = Some c \<Longrightarrow>
   request_orders (adapter_request (dbAdapter s) (subquery_data s offset)) \<and>
   request_orders (AwaitBuilder (baseQuery s) (direct_calls s offset))"
  by (simp add: adapter_request_orders subquery_data_sorted direct_calls_sorted)

text \<open>The direct style at work, with a sort column, behind a raw client.\<close>

lemma direct_style_example:
  "fst (paginate (Some (Fin 0))
     (orderBy ''name'' (Some ''desc'')
        (page (Fin 10) (initial (PostgresAdapter postgres_db) select_query None)))
     (fixed_world (count_result (JStr ''95'')) (id_rows [10]))) =
   Inr \<lparr>data = id_rows [10], total = Fin 95, res_perPage = Fin 1, res_currentPage = Fin 10,
        lastPage = Fin 95, res_from = Fin 10, res_to = Fin 10\<rparr> \<and>
   issued (snd (snd (paginate (Some (Fin 0))
     (orderBy ''name'' (Some ''desc'')
        (page (Fin 10) (initial (PostgresAdapter postgres_db) select_query None)))
     (fixed_world (count_result (JStr ''95'')) (id_rows [10]))))) =
       [ClientQuery [Text ''SELECT COUNT('', Raw ''*'', Text '') as count FROM ('',
                     QuerySQL select_query, Text '') as subquery''],
        AwaitBuilder select_query
          [OrderByCall (Raw ''name'') ''desc'', LimitCall (Fin 1), OffsetCall (Fin 9)]]"
  by code_simp

text \<open>
  The earlier revision (\<^verbatim>\<open>src/index.ts\<close>). Its sort column is never absent: the
  constructor sets \<^verbatim>\<open>"id"\<close>, and every setter leaves a string there.
\<close>

lemma index_ts_constructor_sortBy:
  "DrizzlePaginator_index_ts db query cc w = (Inr s, w') \<Longrightarrow> sortBy s = Some ''id''"
  by (auto simp: DrizzlePaginator_index_ts_def initial_index_ts_def split: if_splits)

lemma index_ts_data_orders: "list_ex chunk_orders (index_ts_data s offset)"
  by (simp add: index_ts_data_def mentions_order_by_def toUpperCase_def lower_letters_def
      upper_letters_def sublist_code prefix_code)

text \<open>Whenever the earlier revision issues a data request, the request carries an ordering.\<close>

lemma index_ts_always_orders:
  assumes "paginate_index_ts ov s w = (r, s', w')"
  shows "(\<exists>c. issued w' = issued w @ [c]) \<or>
         (\<exists>c d. issued w' = issued w @ [c, d] \<and> request_orders d)"
  using paginate_index_ts_issued [OF assms]
  by (auto simp: adapter_request_orders index_ts_data_orders)

text \<open>
  Claim C2, in the earlier revision \<^verbatim>\<open>src/index.ts\<close>, which the claim cites. A
  paginator fresh from the constructor, on which \<^verbatim>\<open>orderBy\<close> was never called, has the
  sort column \<^verbatim>\<open>"id"\<close>; the data statement is built from one template, which has the
  \<^verbatim>\<open>ORDER BY\<close> line whatever the state; and \<^verbatim>\<open>paginate\<close> on the fresh paginator sends
  \<^verbatim>\<open>ORDER BY id ASC\<close>. The current revision behaves as the claim says
  (\<open>current_revision_no_ordering\<close>).
\<close>

theorem index_ts_orders_without_orderBy:
  "sortBy (initial_index_ts a query cc) = Some ''id'' \<and>
   list_ex chunk_orders (index_ts_data s offset) \<and>
   DrizzlePaginator_index_ts drizzle_db relational_query None
       (fixed_world (count_result (JStr ''12'')) []) =
     (Inr (initial_index_ts (DrizzleAdapter drizzle_db) relational_query None),
      fixed_world (count_result (JStr ''12'')) []) \<and>
   issued (snd (snd (paginate_index_ts None
      (initial_index_ts (DrizzleAdapter drizzle_db) relational_query None)
      (fixed_world (count_result (JStr ''12'')) [])))) =
     [DbExecute [Text ''SELECT COUNT('', Raw ''*'', Text '') as count FROM ('',
                 Query relational_query, Text '') as subquery''],
      DbExecute [Text ''\<newline>      SELECT * FROM ('', Query relational_query,
                 Text '') as subquery\<newline>      ORDER BY '', Raw ''id'', Text '' '',
                 Raw ''ASC'', Text ''\<newline>      LIMIT '', Param (Fin 10),
                 Text '' OFFSET '', Param (Fin 0), Text ''\<newline>    '']] \<and>
   request_orders
     (DbExecute [Text ''\<newline>      SELECT * FROM ('', Query relational_query,
                 Text '') as subquery\<newline>      ORDER BY '', Raw ''id'', Text '' '',
                 Raw ''ASC'', Text ''\<newline>      LIMIT '', Param (Fin 10),
                 Text '' OFFSET '', Param (Fin 0), Text ''\<newline>    ''])"
proof -
  have "sortBy (initial_index_ts a query cc) = Some ''id''"
    by (simp add: initial_index_ts_def)
  moreover have "list_ex chunk_orders (index_ts_data s offset)"
    by (rule index_ts_data_orders)
  moreover have "DrizzlePaginator_index_ts drizzle_db relational_query None
       (fixed_world (count_result (JStr ''12'')) []) =
     (Inr (initial_index_ts (DrizzleAdapter drizzle_db) relational_query None),
      fixed_world (count_result (JStr ''12'')) [])"
    by (simp add: DrizzlePaginator_index_ts_def nullish_def drizzle_db_def)
  moreover have "issued (snd (snd (paginate_index_ts None
      (initial_index_ts (DrizzleAdapter drizzle_db) relational_query None)
      (fixed_world (count_result (JStr ''12'')) [])))) =
     [DbExecute [Text ''SELECT COUNT('', Raw ''*'', Text '') as count FROM ('',
                 Query relational_query, Text '') as subquery''],
      DbExecute [Text ''\<newline>      SELECT * FROM ('', Query relational_query,
                 Text '') as subquery\<newline>      ORDER BY '', Raw ''id'', Text '' '',
                 Raw ''ASC'', Text ''\<newline>      LIMIT '', Param (Fin 10),
                 Text '' OFFSET '', Param (Fin 0), Text ''\<newline>    '']]"
    by code_simp
  moreover have "request_orders
     (DbExecute [Text ''\<newline>      SELECT * FROM ('', Query relational_query,
                 Text '') as subquery\<newline>      ORDER BY '', Raw ''id'', Text '' '',
                 Raw ''ASC'', Text ''\<newline>      LIMIT '', Param (Fin 10),
                 Text '' OFFSET '', Param (Fin 0), Text ''\<newline>    ''])"
    by code_simp
  ultimately show ?thesis
    by (intro conjI)
qed

section \<open>Construction\<close>

text \<open>
  A handle that is neither \<^verbatim>\<open>null\<close> nor \<^verbatim>\<open>undefined\<close> is classified as the
  specification says: an adapter for either recognised shape, the error for unsupported
  backends otherwise. No request is issued either way.
\<close>

lemma constructor_classifies:
  assumes "\<not> nullish db"
  shows "DrizzlePaginator db query cc w =
     (if typeof (member_of db ''execute'') = ''function''
        then Inr (initial (DrizzleAdapter db) query cc)
      else if isPostgresDb db then Inr (initial (PostgresAdapter db) query cc)
      else Inl UnsupportedBackend, w)"
  using assms by (simp add: DrizzlePaginator_def)

lemma constructor_issues_nothing:
  "snd (DrizzlePaginator db query cc w) = w"
  by (simp add: DrizzlePaginator_def)

text \<open>
  Claim C5, at the handles \<^verbatim>\<open>null\<close> and \<^verbatim>\<open>undefined\<close>. Neither exposes a callable
  \<^verbatim>\<open>execute\<close> or a \<^verbatim>\<open>$client\<close> with a callable \<^verbatim>\<open>query\<close>, and for neither does the
  constructor reach its own error: reading \<^verbatim>\<open>db.execute\<close> throws a \<^verbatim>\<open>TypeError\<close> first.
  The type guard \<^verbatim>\<open>isPostgresDb\<close> does test for \<^verbatim>\<open>null\<close>; the test of \<^verbatim>\<open>execute\<close>
  before it does not.
\<close>

theorem constructor_null_handle:
  "DrizzlePaginator Null query cc w = (Inl TypeError, w) \<and>
   DrizzlePaginator Undefined query cc w = (Inl TypeError, w) \<and>
   TypeError \<noteq> UnsupportedBackend \<and>
   typeof (member_of Null ''execute'') \<noteq> ''function'' \<and> \<not> isPostgresDb Null \<and>
   typeof (member_of Undefined ''execute'') \<noteq> ''function'' \<and> \<not> isPostgresDb Undefined"
  by (simp add: DrizzlePaginator_def nullish_def UnsupportedBackend_def isPostgresDb_def)

text \<open>The constructor of the earlier revision is the same text.\<close>

lemma index_ts_constructor_null_handle:
  "DrizzlePaginator_index_ts Null query cc w = (Inl TypeError, w) \<and>
   DrizzlePaginator_index_ts Undefined query cc w = (Inl TypeError, w)"
  by (simp add: DrizzlePaginator_index_ts_def nullish_def)

section \<open>The total of a count result\<close>

lemma subquery_outcome:
  assumes "paginateSubqueryStyle s offset w = (out, w')"
      and "issued w' = issued w @ [rc, rd]"
      and "respond w rc = Inr countResult" and "respond w rd = Inr dataResult"
  shows "\<exists>rs. out = Inr (envelope s offset (totalItems_of countResult) rs)"
  using assms
  by (auto simp: paginateSubqueryStyle_def execute_def Let_def
      split: prod.splits sum.splits call_result.splits adapter.splits if_splits)

lemma direct_outcome:
  assumes "paginateDirectQuery s offset w = (out, w')"
      and "issued w' = issued w @ [rc, rd]"
      and "respond w rc = Inr countResult" and "respond w rd = Inr dataResult"
  shows "\<exists>rs. out = Inr (envelope s offset (totalItems_of countResult) rs)"
  using assms
  by (auto simp: paginateDirectQuery_def execute_def issue_def Let_def
      split: prod.splits sum.splits call_result.splits adapter.splits if_splits)

text \<open>
  When the two requests of a call are both answered, the call returns a result, and its
  total is the one extracted from the answer to the count request.
\<close>

lemma paginate_outcome:
  assumes run: "paginate ov s w = (out, s', w')"
      and sent: "issued w' = issued w @ [rc, rd]"
      and count: "respond w rc = Inr countResult"
      and rows: "respond w rd = Inr dataResult"
  shows "\<exists>res. out = Inr res \<and> total res = totalItems_of countResult"
proof -
  let ?o = "jmul (jsub (currentPage s') (Fin 1)) (itemsPerPage s')"
  have "\<exists>rs. out = Inr (envelope s' ?o (totalItems_of countResult) rs)"
  proof (cases "isDirectQuery s' \<and> isDrizzleQueryBuilder (baseQuery s')")
    case True
    with paginate_unfold(2) [OF run] have "paginateDirectQuery s' ?o w = (out, w')"
      by simp
    then show ?thesis using sent count rows by (rule direct_outcome)
  next
    case False
    with paginate_unfold(2) [OF run] have "paginateSubqueryStyle s' ?o w = (out, w')"
      by simp
    then show ?thesis using sent count rows by (rule subquery_outcome)
  qed
  then show ?thesis by (auto simp: envelope_def)
qed

lemma totalItems_cases:
  "(\<not> hasRows cr \<longrightarrow> totalItems_of cr = Fin 0) \<and>
   (member_of cr ''rows'' = JArr [] \<longrightarrow> totalItems_of cr = Fin 0) \<and>
   (\<forall>row rest. member_of cr ''rows'' = JArr (row # rest) \<and>
      optional_member row ''count'' = Undefined \<longrightarrow> totalItems_of cr = Fin 0) \<and>
   (\<forall>row rest. hasRows cr \<and> member_of cr ''rows'' = JArr (row # rest) \<and>
      optional_member row ''count'' \<noteq> Undefined \<longrightarrow>
      totalItems_of cr = Number (member_of row ''count''))"
  by (simp add: totalItems_of_def optional_member_def nullish_def)

text \<open>
  Claim C6 as stated fails on a count that is present and not numeric. The backend answers
  the count statement with one row whose \<^verbatim>\<open>count\<close> is the string \<^verbatim>\<open>"abc"\<close>;
  \<^verbatim>\<open>paginate\<close> completes, and the total it reports is \<^verbatim>\<open>NaN\<close>, as is the last page.
\<close>

theorem malformed_count_counterexample:
  "respond (fixed_world (count_result (JStr ''abc'')) [])
     (DbExecute (subquery_count (initial (DrizzleAdapter drizzle_db) relational_query None))) =
     Inr (JObj [(''rows'', JArr [JObj [(''count'', JStr ''abc'')]])]) \<and>
   fst (paginate None (initial (DrizzleAdapter drizzle_db) relational_query None)
          (fixed_world (count_result (JStr ''abc'')) [])) =
     Inr \<lparr>data = [], total = NaN, res_perPage = Fin 10, res_currentPage = Fin 1,
          lastPage = NaN, res_from = Fin 1, res_to = Fin 0\<rparr> \<and>
   NaN \<noteq> Fin 0"
  by code_simp

text \<open>
  Claim C6, amended. Whenever both requests of a \<^verbatim>\<open>paginate\<close> call are answered, the
  call returns a result. Its total is 0 when the count result has no \<^verbatim>\<open>rows\<close> array,
  when the array is empty, and when the first row is \<^verbatim>\<open>null\<close> or \<^verbatim>\<open>undefined\<close> or has
  no \<^verbatim>\<open>count\<close> (or an \<^verbatim>\<open>undefined\<close> one). A \<^verbatim>\<open>count\<close> that is present is converted by
  \<^verbatim>\<open>Number\<close> and reported as converted.
\<close>

theorem missing_count_defaults_to_zero:
  assumes run: "paginate ov s w = (out, s', w')"
      and sent: "issued w' = issued w @ [rc, rd]"
      and count: "respond w rc = Inr countResult"
      and rows: "respond w rd = Inr dataResult"
  shows "\<exists>res. out = Inr res \<and>
     (\<not> hasRows countResult \<longrightarrow> total res = Fin 0) \<and>
     (member_of countResult ''rows'' = JArr [] \<longrightarrow> total res = Fin 0) \<and>
     (\<forall>row rest. member_of countResult ''rows'' = JArr (row # rest) \<and>
        optional_member row ''count'' = Undefined \<longrightarrow> total res = Fin 0) \<and>
     (\<forall>row rest. hasRows countResult \<and> member_of countResult ''rows'' = JArr (row # rest) \<and>
        optional_member row ''count'' \<noteq> Undefined \<longrightarrow>
        total res = Number (member_of row ''count''))"
proof -
  from paginate_outcome [OF run sent count rows] obtain res
    where res: "out = Inr res" "total res = totalItems_of countResult"
    by blast
  show ?thesis
    using res totalItems_cases [of countResult] by simp
qed

text \<open>
  A count result without \<^verbatim>\<open>rows\<close> (the empty object), with two data rows: the call
  returns them and a total of 0.
\<close>

theorem missing_count_defaults_to_zero_witness:
  "issued (snd (snd (paginate None (initial (DrizzleAdapter drizzle_db) relational_query None)
      (fixed_world (JObj []) (id_rows [1, 2]))))) =
     issued (fixed_world (JObj []) (id_rows [1, 2])) @
       [DbExecute (subquery_count (initial (DrizzleAdapter drizzle_db) relational_query None)),
        DbExecute (subquery_data (initial (DrizzleAdapter drizzle_db) relational_query None) (Fin 0))] \<and>
   respond (fixed_world (JObj []) (id_rows [1, 2]))
     (DbExecute (subquery_count (initial (DrizzleAdapter drizzle_db) relational_query None))) =
     Inr (JObj []) \<and>
   respond (fixed_world (JObj []) (id_rows [1, 2]))
     (DbExecute (subquery_data (initial (DrizzleAdapter drizzle_db) relational_query None) (Fin 0))) =
     Inr (rows_result (id_rows [1, 2])) \<and>
   \<not> hasRows (JObj []) \<and>
   fst (paginate None (initial (DrizzleAdapter drizzle_db) relational_query None)
          (fixed_world (JObj []) (id_rows [1, 2]))) =
     Inr \<lparr>data = id_rows [1, 2], total = Fin 0, res_perPage = Fin 10, res_currentPage = Fin 1,
          lastPage = Fin 0, res_from = Fin 1, res_to = Fin 2\<rparr>"
proof -
  let ?s = "initial (DrizzleAdapter drizzle_db) relational_query None"
  let ?w = "fixed_world (JObj []) (id_rows [1, 2])"
  let ?rc = "DbExecute (subquery_count ?s)"
  let ?rd = "DbExecute (subquery_data ?s (Fin 0))"
  have run: "paginate None ?s ?w =
      (fst (paginate None ?s ?w), fst (snd (paginate None ?s ?w)), snd (snd (paginate None ?s ?w)))"
    by simp
  have sent: "issued (snd (snd (paginate None ?s ?w))) = issued ?w @ [?rc, ?rd]"
    by code_simp
  have count: "respond ?w ?rc = Inr (JObj [])"
    by (simp add: fixed_world_def subquery_count_def)
  have rows: "respond ?w ?rd = Inr (rows_result (id_rows [1, 2]))"
    by (simp add: fixed_world_def subquery_data_def initial_def)
  have norows: "\<not> hasRows (JObj [])"
    by (simp add: hasRows_def)
  have out: "fst (paginate None ?s ?w) =
     Inr \<lparr>data = id_rows [1, 2], total = Fin 0, res_perPage = Fin 10, res_currentPage = Fin 1,
          lastPage = Fin 0, res_from = Fin 1, res_to = Fin 2\<rparr>"
    by code_simp
  from missing_count_defaults_to_zero [OF run sent count rows] norows sent count rows out
  show ?thesis
    by simp
qed

end
